theory Spec2Isabelle
  imports Complex_Main "HOL-Library.Sublist"
begin

section \<open>Text: the string operations of the scraper\<close>

text \<open>
  Texts are \<^typ>\<open>string\<close>: a list of characters, each standing for one code point below 256.
  The Python string methods the scraper calls are written out: \<open>sub in s\<close>,
  \<open>s.replace(old, '')\<close>, \<open>s.strip()\<close>, \<open>s.upper()\<close>, \<open>int(s)\<close> and \<open>float(s)\<close>.
  The interpreter's limit on the number of digits that \<open>int\<close> converts is not part of
  the model.
\<close>

definition code :: "char \<Rightarrow> int" where
  "code c = of_char c"

definition py_isspace :: "char \<Rightarrow> bool" where
  \<comment> \<open>the whitespace of \<open>str.strip()\<close> and of \<open>int()\<close>: TAB..CR, FS..US, space, NEL, NBSP\<close>
  "py_isspace c = (let n = code c in (9 \<le> n \<and> n \<le> 13) \<or> (28 \<le> n \<and> n \<le> 32) \<or> n = 133 \<or> n = 160)"

definition is_digit :: "char \<Rightarrow> bool" where
  "is_digit c = (48 \<le> code c \<and> code c \<le> 57)"

definition digit_val :: "char \<Rightarrow> int" where
  "digit_val c = code c - 48"

fun contains :: "string \<Rightarrow> string \<Rightarrow> bool" where
  \<comment> \<open>\<open>contains sub s\<close> is Python's \<open>sub in s\<close>\<close>
  "contains sub [] = (sub = [])"
| "contains sub (c # cs) = (prefix sub (c # cs) \<or> contains sub cs)"

fun replace_del :: "string \<Rightarrow> string \<Rightarrow> string" where
  \<comment> \<open>\<open>replace_del old s\<close> is \<open>s.replace(old, '')\<close>: one pass, left to right, occurrences
      that do not overlap\<close>
  "replace_del old [] = []"
| "replace_del old (c # cs) =
     (if old \<noteq> [] \<and> prefix old (c # cs) then replace_del old (drop (length old) (c # cs))
      else c # replace_del old cs)"

definition py_strip :: "string \<Rightarrow> string" where
  "py_strip s = rev (dropWhile py_isspace (rev (dropWhile py_isspace s)))"

fun int_body :: "int \<Rightarrow> string \<Rightarrow> int option" where
  \<comment> \<open>the rest of a decimal literal after a digit: digits, single underscores between them\<close>
  "int_body acc [] = Some acc"
| "int_body acc [c] = (if is_digit c then Some (10 * acc + digit_val c) else None)"
| "int_body acc (c # d # cs) =
     (if is_digit c then int_body (10 * acc + digit_val c) (d # cs)
      else if c = CHR ''_'' \<and> is_digit d then int_body acc (d # cs)
      else None)"

definition int_digits :: "string \<Rightarrow> int option" where
  "int_digits s = (case s of [] \<Rightarrow> None | c # cs \<Rightarrow> if is_digit c then int_body (digit_val c) cs else None)"

definition py_int :: "string \<Rightarrow> int option" where
  \<comment> \<open>\<open>int(s)\<close> in base 10; \<open>None\<close> is the ValueError\<close>
  "py_int s =
     (case py_strip s of
        [] \<Rightarrow> None
      | c # cs \<Rightarrow>
          if c = CHR ''-'' then map_option uminus (int_digits cs)
          else if c = CHR ''+'' then int_digits cs
          else int_digits (c # cs))"

section \<open>Field extractor\<close>

definition clean_price :: "string \<Rightarrow> int option" where
  "clean_price price_text =
     (if price_text = [] then None
      else py_int (py_strip (replace_del ''.'' (replace_del ''Rp'' price_text))))"

text \<open>
  \<open>s.upper()\<close> on code points below 256. The sharp s becomes \<open>SS\<close>; the two letters whose
  capital lies above 255 (the micro sign and y with diaeresis) are left as they are.
\<close>

definition upper_char :: "char \<Rightarrow> string" where
  "upper_char c = (let n = code c in
     if (97 \<le> n \<and> n \<le> 122) \<or> (224 \<le> n \<and> n \<le> 254 \<and> n \<noteq> 247) then [char_of (n - 32)]
     else if n = 223 then ''SS''
     else [c])"

definition py_upper :: "string \<Rightarrow> string" where
  "py_upper s = concat (map upper_char s)"

text \<open>
  \<open>float(s)\<close>. A finite result is kept as the rational number the literal denotes; the
  rounding of that number to a binary double is not part of the model.
\<close>

datatype pyfloat = Finite rat | PosInf | NegInf | NaN

fun digitpart_rest :: "int \<Rightarrow> nat \<Rightarrow> string \<Rightarrow> int \<times> nat \<times> string" where
  \<comment> \<open>reads on after a digit: the value, the number of digits read, and what is left\<close>
  "digitpart_rest acc k [] = (acc, k, [])"
| "digitpart_rest acc k [c] = (if is_digit c then (10 * acc + digit_val c, Suc k, []) else (acc, k, [c]))"
| "digitpart_rest acc k (c # d # cs) =
     (if is_digit c then digitpart_rest (10 * acc + digit_val c) (Suc k) (d # cs)
      else if c = CHR ''_'' \<and> is_digit d then digitpart_rest acc k (d # cs)
      else (acc, k, c # d # cs))"

definition take_digitpart :: "string \<Rightarrow> (int \<times> nat \<times> string) option" where
  "take_digitpart s =
     (case s of [] \<Rightarrow> None
      | c # cs \<Rightarrow> if is_digit c then Some (digitpart_rest (digit_val c) 1 cs) else None)"

definition scale10 :: "int \<Rightarrow> int \<Rightarrow> rat" where
  \<comment> \<open>\<open>scale10 m e\<close> is m times ten to the power e\<close>
  "scale10 mant e = (if 0 \<le> e then of_int mant * 10 ^ nat e else of_int mant / 10 ^ nat (- e))"

definition float_exponent :: "int \<Rightarrow> nat \<Rightarrow> string \<Rightarrow> pyfloat option" where
  \<comment> \<open>the optional exponent that ends a literal with mantissa digits \<open>mant\<close>, \<open>k\<close> of them
      after the point\<close>
  "float_exponent mant k s =
     (case s of
        [] \<Rightarrow> Some (Finite (scale10 mant (- int k)))
      | e # r \<Rightarrow>
          if e = CHR ''e'' \<or> e = CHR ''E'' then
            (case r of
               [] \<Rightarrow> None
             | sg # r' \<Rightarrow>
                 (case take_digitpart (if sg = CHR ''+'' \<or> sg = CHR ''-'' then r' else r) of
                    Some (x, _, []) \<Rightarrow>
                      Some (Finite (scale10 mant ((if sg = CHR ''-'' then - x else x) - int k)))
                  | _ \<Rightarrow> None))
          else None)"

definition float_unsigned :: "string \<Rightarrow> pyfloat option" where
  "float_unsigned u =
     (if py_upper u = ''INF'' \<or> py_upper u = ''INFINITY'' then Some PosInf
      else if py_upper u = ''NAN'' then Some NaN
      else
        (case take_digitpart u of
           Some (i, _, rest) \<Rightarrow>
             (case rest of
                [] \<Rightarrow> float_exponent i 0 rest
              | c # r2 \<Rightarrow>
                  if c = CHR ''.'' then
                    (case take_digitpart r2 of
                       Some (f, k, r3) \<Rightarrow> float_exponent (i * 10 ^ k + f) k r3
                     | None \<Rightarrow> float_exponent i 0 r2)
                  else float_exponent i 0 rest)
         | None \<Rightarrow>
             (case u of
                [] \<Rightarrow> None
              | c # r2 \<Rightarrow>
                  if c = CHR ''.'' then
                    (case take_digitpart r2 of
                       Some (f, k, r3) \<Rightarrow> float_exponent f k r3
                     | None \<Rightarrow> None)
                  else None)))"

fun negate :: "pyfloat \<Rightarrow> pyfloat" where
  "negate (Finite q) = Finite (- q)"
| "negate PosInf = NegInf"
| "negate NegInf = PosInf"
| "negate NaN = NaN"

definition py_float :: "string \<Rightarrow> pyfloat option" where
  \<comment> \<open>\<open>float(s)\<close>; \<open>None\<close> is the ValueError\<close>
  "py_float s =
     (case py_strip s of
        [] \<Rightarrow> None
      | c # cs \<Rightarrow>
          if c = CHR ''-'' then map_option negate (float_unsigned cs)
          else if c = CHR ''+'' then float_unsigned cs
          else float_unsigned (c # cs))"

text \<open>The value of a string of decimal digits, and the characters of an integer literal.\<close>

definition decimal :: "string \<Rightarrow> int" where
  "decimal ds = foldl (\<lambda>a c. 10 * a + digit_val c) 0 ds"

definition numeric_char :: "char \<Rightarrow> bool" where
  "numeric_char c = (is_digit c \<or> c = CHR ''+'' \<or> c = CHR ''-'' \<or> c = CHR ''_'')"

text \<open>
  An integer literal of \<open>int\<close>, in words: an optional sign, then digits, with single
  underscores allowed between two digits. Its value is the number its digits spell, negated
  after a minus sign.
\<close>

definition digit_groups :: "string \<Rightarrow> bool" where
  "digit_groups b =
     (b \<noteq> [] \<and> is_digit (hd b) \<and> is_digit (last b) \<and>
      (\<forall>c\<in>set b. is_digit c \<or> c = CHR ''_'') \<and> \<not> contains ''__'' b)"

definition int_literal :: "string \<Rightarrow> bool" where
  "int_literal u =
     (case u of
        [] \<Rightarrow> False
      | c # cs \<Rightarrow> if c = CHR ''-'' \<or> c = CHR ''+'' then digit_groups cs else digit_groups (c # cs))"

definition literal_value :: "string \<Rightarrow> int" where
  "literal_value u =
     (case u of
        [] \<Rightarrow> 0
      | c # cs \<Rightarrow> if c = CHR ''-'' then - decimal (filter is_digit cs)
                 else decimal (filter is_digit (c # cs)))"

text \<open>What may follow the first digit of such a literal.\<close>

definition tail_ok :: "string \<Rightarrow> bool" where
  "tail_ok s = ((\<forall>c\<in>set s. is_digit c \<or> c = CHR ''_'') \<and> (s \<noteq> [] \<longrightarrow> is_digit (last s)) \<and>
     \<not> contains ''__'' s)"

section \<open>Regular expressions: the patterns given to \<open>re.search\<close>\<close>

text \<open>
  The patterns of the scraper are built from literal characters, the classes \<open>\d\<close>,
  \<open>\s\<close> and \<open>[\d.]\<close>, concatenation, the greedy \<open>*\<close>, \<open>+\<close> and \<open>?\<close>, the word
  boundary \<open>\b\<close> and capturing parentheses. A pattern is a value of \<open>rx\<close>; \<open>Grp\<close> is a
  capturing group, and \<open>group_count\<close> says how many the pattern has; the patterns of the
  scraper have one, and the matcher keeps what that group captured. The matcher follows
  the backtracking order of \<open>re\<close>: it lists the ways a pattern matches at a position, the
  preferred way first. A state is the text still to read, the character before it, and what
  group 1 captured so far.
\<close>

datatype cclass = Digit | Space | DigitDot

datatype rx =
    Eps
  | Chr char
  | Cls cclass
  | Bnd
  | Seq rx rx
  | Star rx
  | Opt rx
  | Grp rx

definition is_word :: "char \<Rightarrow> bool" where
  \<comment> \<open>\<open>\w\<close> on code points below 256: letters, digits and the underscore\<close>
  "is_word c = (let n = code c in
     (48 \<le> n \<and> n \<le> 57) \<or> (65 \<le> n \<and> n \<le> 90) \<or> n = 95 \<or> (97 \<le> n \<and> n \<le> 122) \<or>
     n = 170 \<or> n = 178 \<or> n = 179 \<or> n = 181 \<or> n = 185 \<or> n = 186 \<or> (188 \<le> n \<and> n \<le> 190) \<or>
     (192 \<le> n \<and> n \<le> 214) \<or> (216 \<le> n \<and> n \<le> 246) \<or> (248 \<le> n \<and> n \<le> 255))"

fun in_class :: "cclass \<Rightarrow> char \<Rightarrow> bool" where
  "in_class Digit c = is_digit c"
| "in_class Space c = py_isspace c"
| "in_class DigitDot c = (is_digit c \<or> c = CHR ''.'')"

fun lit :: "string \<Rightarrow> rx" where
  "lit [] = Eps"
| "lit (c # cs) = Seq (Chr c) (lit cs)"

definition Plus :: "rx \<Rightarrow> rx" where
  "Plus r = Seq r (Star r)"

fun group_count :: "rx \<Rightarrow> nat" where
  "group_count (Seq a b) = group_count a + group_count b"
| "group_count (Star r) = group_count r"
| "group_count (Opt r) = group_count r"
| "group_count (Grp r) = Suc (group_count r)"
| "group_count _ = 0"

type_synonym mstate = "string \<times> char option \<times> string option"

definition at_boundary :: "char option \<Rightarrow> string \<Rightarrow> bool" where
  "at_boundary p s =
     ((case p of None \<Rightarrow> False | Some c \<Rightarrow> is_word c) \<noteq> (case s of [] \<Rightarrow> False | c # _ \<Rightarrow> is_word c))"

function m :: "rx \<Rightarrow> mstate \<Rightarrow> mstate list" where
  "m Eps st = [st]"
| "m (Chr c) (s, p, g) = (case s of [] \<Rightarrow> [] | x # xs \<Rightarrow> if x = c then [(xs, Some x, g)] else [])"
| "m (Cls k) (s, p, g) = (case s of [] \<Rightarrow> [] | x # xs \<Rightarrow> if in_class k x then [(xs, Some x, g)] else [])"
| "m Bnd (s, p, g) = (if at_boundary p s then [(s, p, g)] else [])"
| "m (Seq a b) st = concat (map (m b) (m a st))"
| "m (Star r) (s, p, g) =
     concat (map (m (Star r)) (filter (\<lambda>st'. length (fst st') < length s) (m r (s, p, g)))) @ [(s, p, g)]"
| "m (Opt r) st = m r st @ [st]"
| "m (Grp r) (s, p, g) =
     map (\<lambda>(s', p', g'). (s', p', Some (take (length s - length s') s))) (m r (s, p, g))"
  by pat_completeness auto
termination
  by (relation "measure size <*lex*> measure (\<lambda>st. length (fst st))") auto

record match =
  whole :: string
  group1 :: "string option"

fun search_at :: "rx \<Rightarrow> char option \<Rightarrow> string \<Rightarrow> match option" where
  \<comment> \<open>the leftmost match: try the position, then the next one\<close>
  "search_at r p s =
     (case m r (s, p, None) of
        (s', p', g) # _ \<Rightarrow> Some \<lparr>whole = take (length s - length s') s, group1 = g\<rparr>
      | [] \<Rightarrow> (case s of [] \<Rightarrow> None | c # cs \<Rightarrow> search_at r (Some c) cs))"

definition re_search :: "rx \<Rightarrow> string \<Rightarrow> match option" where
  "re_search pattern text = search_at pattern None text"

text \<open>The patterns that occur in the scraper.\<close>

definition pat_GB :: rx where \<comment> \<open>\<open>(\d+)\s*GB\<close>\<close>
  "pat_GB = Seq (Grp (Plus (Cls Digit))) (Seq (Star (Cls Space)) (lit ''GB''))"

definition pat_MP :: rx where \<comment> \<open>\<open>(\d+)\s*MP\<close>\<close>
  "pat_MP = Seq (Grp (Plus (Cls Digit))) (Seq (Star (Cls Space)) (lit ''MP''))"

definition pat_inch :: rx where \<comment> \<open>\<open>([\d.]+)\s*inch\<close>\<close>
  "pat_inch = Seq (Grp (Plus (Cls DigitDot))) (Seq (Star (Cls Space)) (lit ''inch''))"

definition pat_mAh :: rx where \<comment> \<open>\<open>(\d+)\s*mAh\<close>\<close>
  "pat_mAh = Seq (Grp (Plus (Cls Digit))) (Seq (Star (Cls Space)) (lit ''mAh''))"

definition pat_ROM :: rx where \<comment> \<open>\<open>ROM\s*(\d+)\s*GB\<close>\<close>
  "pat_ROM = Seq (lit ''ROM'') (Seq (Star (Cls Space)) pat_GB)"

definition pat_RAM :: rx where \<comment> \<open>\<open>RAM\s*(\d+)\s*GB\<close>\<close>
  "pat_RAM = Seq (lit ''RAM'') (Seq (Star (Cls Space)) pat_GB)"

definition pat_RAM_frac :: rx where \<comment> \<open>\<open>RAM\s*(\d+(?:\.\d+)?)\s*GB\<close>\<close>
  "pat_RAM_frac =
     Seq (lit ''RAM'') (Seq (Star (Cls Space))
       (Seq (Grp (Seq (Plus (Cls Digit)) (Opt (Seq (Chr CHR ''.'') (Plus (Cls Digit))))))
         (Seq (Star (Cls Space)) (lit ''GB''))))"

definition pat_Rp :: rx where \<comment> \<open>\<open>Rp\s*([\d\.]+)\<close>\<close>
  "pat_Rp = Seq (lit ''Rp'') (Seq (Star (Cls Space)) (Grp (Plus (Cls DigitDot))))"

definition pat_year :: rx where \<comment> \<open>\<open>\b(20\d{2})\b\<close>\<close>
  "pat_year = Seq Bnd (Seq (Grp (Seq (lit ''20'') (Seq (Cls Digit) (Cls Digit)))) Bnd)"

section \<open>Field extractor: \<open>extract_spec_value\<close>\<close>

text \<open>
  A number read from a specification text is an \<open>int\<close> or a \<open>float\<close> of Python. The only
  exception that leaves \<open>extract_spec_value\<close> in the model is the IndexError of
  \<open>match.group(1)\<close> on a pattern with no group: the handler catches ValueError and
  TypeError only. A group that took no part in the match gives \<open>None\<close>, and \<open>'.' in None\<close>
  is a TypeError, which the handler catches.
\<close>

datatype number = IntV int | FloatV pyfloat

datatype py_error = IndexError

definition extract_spec_value :: "string \<Rightarrow> rx \<Rightarrow> py_error + number option" where
  "extract_spec_value text pattern =
     (if text = [] then Inr None
      else
        (case re_search pattern text of
           None \<Rightarrow> Inr None
         | Some mt \<Rightarrow>
             if group_count pattern = 0 then Inl IndexError
             else
               (case group1 mt of
                  None \<Rightarrow> Inr None
                | Some g \<Rightarrow>
                    if CHR ''.'' \<in> set g then Inr (map_option FloatV (py_float (py_strip g)))
                    else Inr (map_option IntV (py_int (py_strip g))))))"

section \<open>The parsed page\<close>

text \<open>
  The scraper reads a page through queries of the HTML parser. A product container is the
  record of what its queries return on it, a heading of the newest layout likewise, and a
  page (\<open>soup\<close>) is the record of the queries made on the whole document. Element texts
  are strings; lists are in document order.
\<close>

record product =
  h2_product_name :: "string option"  \<comment> \<open>\<open>find('h2', class_='styles_productName__fr99s')\<close>, its text\<close>
  h2_first :: "string option"  \<comment> \<open>\<open>find('h2')\<close>\<close>
  name_like :: "string option"  \<comment> \<open>\<open>find(['h2','h3','div'], class_=...)\<close>, class with name or title\<close>
  year_span :: "string option"  \<comment> \<open>the \<open>span\<close> in \<open>div.styles_yearReleased___jyCv\<close>\<close>
  text_nodes :: "string list"  \<comment> \<open>\<open>find_all(text=True)\<close>\<close>
  seller_links :: "string list"  \<comment> \<open>\<open>find_all('a', href=...)\<close>, href with \<open>track/seller\<close>\<close>
  td_texts :: "string list"  \<comment> \<open>\<open>find_all('td')\<close>\<close>
  price_class_texts :: "string list"  \<comment> \<open>\<open>find_all(class_=...)\<close>, class with \<open>price\<close>\<close>
  spec_items :: "string list option"
    \<comment> \<open>the item divs of the specs container; \<open>None\<close> when no specs container is found\<close>

record header =
  htext :: string  \<comment> \<open>\<open>header.text\<close>\<close>
  next_link :: "string option"  \<comment> \<open>\<open>header.find_next('a')\<close>, its text\<close>

record soup =
  h2_headers :: "header list"  \<comment> \<open>\<open>find_all('h2')\<close>\<close>
  select_productPanel_sub :: "product list"  \<comment> \<open>\<open>select('div[class*="productPanel"]')\<close>\<close>
  select_productPanel :: "product list"  \<comment> \<open>\<open>select('div.styles_productPanel__Tlvp6')\<close>\<close>
  select_product_Panel :: "product list"  \<comment> \<open>\<open>select('div[class*="product"][class*="Panel"]')\<close>\<close>
  find_productPanel :: "product list"  \<comment> \<open>\<open>find_all('div', class_='styles_productPanel__Tlvp6')\<close>\<close>
  find_row :: "product list"  \<comment> \<open>\<open>find_all('div', class_='row')\<close>\<close>
  find_product_item :: "product list"  \<comment> \<open>divs whose class has \<open>product\<close> or \<open>item\<close>\<close>
  find_container :: "product list"
    \<comment> \<open>divs whose class has \<open>product\<close>, \<open>item\<close>, \<open>card\<close> or \<open>listing\<close>\<close>

section \<open>Layout classifier\<close>

datatype layout = Old | New | Newest

fun header_loop :: "header list \<Rightarrow> bool" where
  \<comment> \<open>the loop over the headings: true when it returns \<open>"newest"\<close>\<close>
  "header_loop [] = False"
| "header_loop (h # hs) =
     (if contains ''RAM'' (htext h) \<and> contains ''ROM'' (htext h) then True else header_loop hs)"

fun indicator_loop :: "product list list \<Rightarrow> bool" where
  \<comment> \<open>the loop over a list of indicators: true when one of them is not empty\<close>
  "indicator_loop [] = False"
| "indicator_loop (i # is) = (if i \<noteq> [] \<and> length i > 0 then True else indicator_loop is)"

definition detect_layout :: "soup \<Rightarrow> int \<Rightarrow> layout" where
  "detect_layout sp page_number =
     (if h2_headers sp \<noteq> [] \<and> length (h2_headers sp) > 5 \<and> header_loop (h2_headers sp) then Newest
      else
        (let default_layout = (if page_number \<ge> 202 then New else Old);
             new_layout_indicators =
               [select_productPanel_sub sp, select_productPanel sp, select_product_Panel sp];
             old_layout_indicators = [find_productPanel sp, find_row sp]
         in if indicator_loop new_layout_indicators then New
            else if indicator_loop old_layout_indicators then Old
            else default_layout))"

section \<open>Record extractors\<close>

record phone_data =
  Name :: string
  Price :: "int option"
  RAM :: "number option"
  Storage :: "number option"
  Camera :: "number option"
  ScreenSize :: "number option"
  Battery :: "number option"
  ReleaseYear :: "int option"

text \<open>
  An extractor returns \<open>None\<close> when the source returns \<open>None\<close>: no name element, or an
  exception caught by the handler around the whole extraction.
\<close>

definition truthy :: "int option \<Rightarrow> bool" where
  \<comment> \<open>\<open>if price:\<close> holds for an integer other than zero\<close>
  "truthy p = (case p of None \<Rightarrow> False | Some n \<Rightarrow> n \<noteq> 0)"

definition find_name :: "product \<Rightarrow> string option" where
  "find_name p =
     (case h2_product_name p of
        Some t \<Rightarrow> Some t
      | None \<Rightarrow> (case h2_first p of Some t \<Rightarrow> Some t | None \<Rightarrow> name_like p))"

fun year_loop :: "string list \<Rightarrow> int option \<Rightarrow> int option" where
  \<comment> \<open>the scan of the text nodes for a year: stops at the first match that parses\<close>
  "year_loop [] release_year = release_year"
| "year_loop (element # rest) release_year =
     (case re_search pat_year (py_strip element) of
        None \<Rightarrow> year_loop rest release_year
      | Some mt \<Rightarrow>
          (case Option.bind (group1 mt) py_int of
             Some y \<Rightarrow> Some y
           | None \<Rightarrow> year_loop rest release_year))"

definition find_year :: "product \<Rightarrow> int option" where
  "find_year p =
     (let release_year = (case year_span p of None \<Rightarrow> None | Some t \<Rightarrow> py_int (py_strip t))
      in if \<not> truthy release_year then year_loop (text_nodes p) release_year else release_year)"

fun link_loop :: "string list \<Rightarrow> int option \<Rightarrow> int option" where
  \<comment> \<open>old layout, method 1: the first seller link with the marker decides, and ends the loop\<close>
  "link_loop [] price = price"
| "link_loop (link # rest) price =
     (let price_text = py_strip link
      in if contains ''Rp'' price_text then clean_price price_text else link_loop rest price)"

fun text_loop :: "string list \<Rightarrow> int option \<Rightarrow> int option" where
  \<comment> \<open>the text nodes with the marker: every node sets the price, a truthy price ends the loop\<close>
  "text_loop [] price = price"
| "text_loop (element # rest) price =
     (let price' = clean_price (py_strip element)
      in if truthy price' then price' else text_loop rest price')"

fun td_loop :: "string list \<Rightarrow> int option \<Rightarrow> int option" where
  \<comment> \<open>old layout, method 3: the first table cell with the marker decides, and ends the loop\<close>
  "td_loop [] price = price"
| "td_loop (td # rest) price =
     (if contains ''Rp'' td then clean_price td else td_loop rest price)"

fun class_loop :: "string list \<Rightarrow> int option \<Rightarrow> int option" where
  \<comment> \<open>the elements with a price class: one with the marker sets the price, a truthy price
      ends the loop\<close>
  "class_loop [] price = price"
| "class_loop (element # rest) price =
     (if contains ''Rp'' element then
        (let price' = clean_price element
         in if truthy price' then price' else class_loop rest price')
      else class_loop rest price)"

definition price_old :: "product \<Rightarrow> int option" where
  "price_old p =
     (let price = None;
          price = link_loop (seller_links p) price;
          price = (if price = None then text_loop (filter (contains ''Rp'') (text_nodes p)) price
                   else price);
          price = (if price = None then td_loop (td_texts p) price else price);
          price = (if price = None then class_loop (price_class_texts p) price else price)
      in price)"

definition price_new :: "product \<Rightarrow> int option" where
  "price_new p =
     (let price = None;
          price = text_loop (filter (contains ''Rp'') (text_nodes p)) price;
          price = (if price = None then class_loop (price_class_texts p) price else price)
      in price)"

text \<open>
  The specification fields. A step that raises gives \<open>None\<close>, which ends the extraction:
  the handler around it returns \<open>None\<close> for the product.
\<close>

record specs =
  ram :: "number option"
  storage :: "number option"
  camera :: "number option"
  screen :: "number option"
  battery :: "number option"

definition no_specs :: specs where
  "no_specs = \<lparr>ram = None, storage = None, camera = None, screen = None, battery = None\<rparr>"

definition esv :: "string \<Rightarrow> rx \<Rightarrow> number option option" where
  \<comment> \<open>a call of \<open>extract_spec_value\<close> inside an extractor\<close>
  "esv text pattern = (case extract_spec_value text pattern of Inl e \<Rightarrow> None | Inr v \<Rightarrow> Some v)"

definition int_group :: "match \<Rightarrow> number option" where
  \<comment> \<open>\<open>int(match.group(1))\<close>\<close>
  "int_group mt = map_option IntV (Option.bind (group1 mt) py_int)"

definition float_group :: "match \<Rightarrow> number option" where
  \<comment> \<open>\<open>float(match.group(1))\<close>\<close>
  "float_group mt = map_option FloatV (Option.bind (group1 mt) py_float)"

definition storage_step :: "string \<Rightarrow> specs \<Rightarrow> specs option" where
  \<comment> \<open>the storage check of an item, the same in both layouts\<close>
  "storage_step spec_text s =
     (if contains ''GB'' spec_text \<and>
         (contains ''ROM'' (py_upper spec_text) \<or> contains ''STORAGE'' (py_upper spec_text) \<or>
          storage s = None) then
        (case re_search pat_GB spec_text of
           None \<Rightarrow> Some s
         | Some storage_match \<Rightarrow>
             if \<not> contains ''RAM'' (py_upper spec_text) then
               map_option (\<lambda>v. s\<lparr>storage := Some v\<rparr>) (int_group storage_match)
             else Some s)
      else Some s)"

definition spec_item_old :: "string \<Rightarrow> specs \<Rightarrow> specs option" where
  "spec_item_old item s0 =
     (let spec_text = py_strip item in
      Option.bind
        (if contains ''GB'' spec_text \<and> (contains ''RAM'' (py_upper spec_text) \<or> ram s0 = None)
         then map_option (\<lambda>v. s0\<lparr>ram := v\<rparr>) (esv spec_text pat_GB) else Some s0)
      (\<lambda>s1. Option.bind (storage_step spec_text s1)
      (\<lambda>s2. Option.bind
        (if contains ''MP'' spec_text \<and> camera s2 = None
         then map_option (\<lambda>v. s2\<lparr>camera := v\<rparr>) (esv spec_text pat_MP) else Some s2)
      (\<lambda>s3. Option.bind
        (if contains ''inch'' spec_text \<and> screen s3 = None
         then map_option (\<lambda>v. s3\<lparr>screen := v\<rparr>) (esv spec_text pat_inch) else Some s3)
      (\<lambda>s4.
        (if contains ''mAh'' spec_text \<and> battery s4 = None
         then map_option (\<lambda>v. s4\<lparr>battery := v\<rparr>) (esv spec_text pat_mAh) else Some s4))))))"

definition spec_item_new :: "string \<Rightarrow> specs \<Rightarrow> specs option" where
  "spec_item_new item s0 =
     (let spec_text = py_strip item in
      Option.bind
        (if contains ''GB'' spec_text \<and> (contains ''RAM'' (py_upper spec_text) \<or> ram s0 = None) then
           (case re_search pat_GB spec_text of
              None \<Rightarrow> Some s0
            | Some ram_match \<Rightarrow> map_option (\<lambda>v. s0\<lparr>ram := Some v\<rparr>) (int_group ram_match))
         else Some s0)
      (\<lambda>s1. Option.bind (storage_step spec_text s1)
      (\<lambda>s2. Option.bind
        (if contains ''MP'' spec_text \<and> camera s2 = None then
           (case re_search pat_MP spec_text of
              None \<Rightarrow> Some s2
            | Some camera_match \<Rightarrow> map_option (\<lambda>v. s2\<lparr>camera := Some v\<rparr>) (int_group camera_match))
         else Some s2)
      (\<lambda>s3. Option.bind
        (if contains ''inch'' spec_text \<and> screen s3 = None then
           (case re_search pat_inch spec_text of
              None \<Rightarrow> Some s3
            | Some screen_match \<Rightarrow> map_option (\<lambda>v. s3\<lparr>screen := Some v\<rparr>) (float_group screen_match))
         else Some s3)
      (\<lambda>s4.
        (if contains ''mAh'' spec_text \<and> battery s4 = None then
           (case re_search pat_mAh spec_text of
              None \<Rightarrow> Some s4
            | Some battery_match \<Rightarrow> map_option (\<lambda>v. s4\<lparr>battery := Some v\<rparr>) (int_group battery_match))
         else Some s4))))))"

fun items_loop :: "(string \<Rightarrow> specs \<Rightarrow> specs option) \<Rightarrow> string list \<Rightarrow> specs \<Rightarrow> specs option" where
  "items_loop f [] s = Some s"
| "items_loop f (item # rest) s = (case f item s of None \<Rightarrow> None | Some s' \<Rightarrow> items_loop f rest s')"

definition find_specs :: "(string \<Rightarrow> specs \<Rightarrow> specs option) \<Rightarrow> product \<Rightarrow> string \<Rightarrow> specs option" where
  \<comment> \<open>the items of the specs container, then RAM and storage from the name\<close>
  "find_specs f p name =
     Option.bind (case spec_items p of None \<Rightarrow> Some no_specs | Some items \<Rightarrow> items_loop f items no_specs)
     (\<lambda>s1. Option.bind
        (if storage s1 = None \<and> contains ''ROM'' name
         then map_option (\<lambda>v. s1\<lparr>storage := v\<rparr>) (esv name pat_ROM) else Some s1)
     (\<lambda>s2.
        (if ram s2 = None \<and> contains ''RAM'' name
         then map_option (\<lambda>v. s2\<lparr>ram := v\<rparr>) (esv name pat_RAM) else Some s2)))"

definition make_phone :: "string \<Rightarrow> int option \<Rightarrow> specs \<Rightarrow> int option \<Rightarrow> phone_data" where
  "make_phone name price s release_year =
     \<lparr>Name = name, Price = price, RAM = ram s, Storage = storage s, Camera = camera s,
      ScreenSize = screen s, Battery = battery s, ReleaseYear = release_year\<rparr>"

definition extract_product_data_new_layout :: "product \<Rightarrow> phone_data option" where
  "extract_product_data_new_layout p =
     (case find_name p of
        None \<Rightarrow> None
      | Some name_text \<Rightarrow>
          (let name = py_strip name_text;
               release_year = find_year p;
               price = price_new p
           in map_option (\<lambda>s. make_phone name price s release_year) (find_specs spec_item_new p name)))"

definition extract_product_data_old_layout :: "product \<Rightarrow> phone_data option" where
  "extract_product_data_old_layout p =
     (case find_name p of
        None \<Rightarrow> None
      | Some name_text \<Rightarrow>
          (let name = py_strip name_text;
               release_year = find_year p;
               price = price_old p
           in map_option (\<lambda>s. make_phone name price s release_year) (find_specs spec_item_old p name)))"

definition extract_product_data_newest_layout :: "header \<Rightarrow> phone_data option" where
  "extract_product_data_newest_layout header_element =
     (let name = py_strip (htext header_element) in
      Option.bind
        (case re_search pat_RAM_frac name of
           None \<Rightarrow> Some None
         | Some ram_match \<Rightarrow>
             (case group1 ram_match of
                None \<Rightarrow> None
              | Some ram_value \<Rightarrow>
                  if CHR ''.'' \<in> set ram_value then map_option (\<lambda>v. Some (FloatV v)) (py_float ram_value)
                  else map_option (\<lambda>v. Some (IntV v)) (py_int ram_value)))
      (\<lambda>ram_v. Option.bind
        (case re_search pat_ROM name of
           None \<Rightarrow> Some None
         | Some storage_match \<Rightarrow> map_option Some (int_group storage_match))
      (\<lambda>storage_v.
        (case next_link header_element of
           None \<Rightarrow>
             Some \<lparr>Name = name, Price = None, RAM = ram_v, Storage = storage_v, Camera = None,
                   ScreenSize = None, Battery = None, ReleaseYear = None\<rparr>
         | Some link \<Rightarrow>
             (let link_text = py_strip link;
                  price = (case re_search pat_Rp link_text of
                             None \<Rightarrow> None
                           | Some price_match \<Rightarrow> clean_price (whole price_match))
              in Option.bind
                (case re_search pat_MP link_text of
                   None \<Rightarrow> Some None
                 | Some camera_match \<Rightarrow> map_option Some (int_group camera_match))
              (\<lambda>camera_v. Option.bind
                (case re_search pat_inch link_text of
                   None \<Rightarrow> Some None
                 | Some screen_match \<Rightarrow> map_option Some (float_group screen_match))
              (\<lambda>screen_v. Option.bind
                (case re_search pat_mAh link_text of
                   None \<Rightarrow> Some None
                 | Some battery_match \<Rightarrow> map_option Some (int_group battery_match))
              (\<lambda>battery_v. Option.bind
                (case re_search pat_year link_text of
                   None \<Rightarrow> Some None
                 | Some year_match \<Rightarrow> map_option Some (Option.bind (group1 year_match) py_int))
              (\<lambda>year_v.
                Some \<lparr>Name = name, Price = price, RAM = ram_v, Storage = storage_v,
                      Camera = camera_v, ScreenSize = screen_v, Battery = battery_v,
                      ReleaseYear = year_v\<rparr>)))))))))"

section \<open>Persistence: the CSV store and its backups\<close>

text \<open>
  A file system maps a path to the content of the file there. A CSV file is its lines, each
  a list of cells; numbers are kept as values and a missing value is a blank cell. \<open>Garbled\<close> stands for bytes that \<open>read_csv\<close> cannot
  parse. Directories are implicit in the paths, and file operations are taken to succeed.
\<close>

datatype cell = Txt string | Nmb number | Blank

datatype file_content = Lines "cell list list" | Garbled

type_synonym filesystem = "string \<rightharpoonup> file_content"

definition path_exists :: "filesystem \<Rightarrow> string \<Rightarrow> bool" where
  "path_exists fs path = (fs path \<noteq> None)"

definition basename :: "string \<Rightarrow> string" where
  "basename p = rev (takeWhile (\<lambda>c. c \<noteq> CHR ''/'') (rev p))"

definition splitext :: "string \<Rightarrow> string \<times> string" where
  \<comment> \<open>\<open>os.path.splitext\<close>: the extension starts at the last dot of the last component,
      unless only dots come before it there\<close>
  "splitext p =
     (let name = basename p;
          dir = take (length p - length name) p
      in if CHR ''.'' \<in> set name then
           (let ext = CHR ''.'' # rev (takeWhile (\<lambda>c. c \<noteq> CHR ''.'') (rev name));
                root = take (length name - length ext) name
            in if \<exists>c\<in>set root. c \<noteq> CHR ''.'' then (dir @ root, ext) else (p, []))
         else (p, []))"

definition backup_path_of :: "string \<Rightarrow> string \<Rightarrow> string" where
  "backup_path_of file_path timestamp =
     (let file_name = basename file_path;
          backup_name = fst (splitext file_name) @ ''_'' @ timestamp @ snd (splitext file_name)
      in ''backups'' @ ''/'' @ backup_name)"

definition create_backup :: "string \<Rightarrow> string \<Rightarrow> filesystem \<Rightarrow> filesystem \<times> string option" where
  \<comment> \<open>\<open>timestamp\<close> is the clock reading, formatted; the result is the new file system and
      the value returned\<close>
  "create_backup file_path timestamp fs =
     (case fs file_path of
        Some content \<Rightarrow>
          (let backup_path = backup_path_of file_path timestamp
           in (fs(backup_path \<mapsto> content), Some backup_path))
      | None \<Rightarrow> (fs, None))"

definition columns :: "string list" where
  "columns = [''Name'', ''Price'', ''RAM'', ''Storage'', ''Camera'', ''ScreenSize'', ''Battery'',
              ''ReleaseYear'']"

definition num_cell :: "number option \<Rightarrow> cell" where
  "num_cell v = (case v of None \<Rightarrow> Blank | Some n \<Rightarrow> Nmb n)"

definition row_of :: "phone_data \<Rightarrow> cell list" where
  "row_of d =
     [Txt (Name d), num_cell (map_option IntV (Price d)), num_cell (RAM d), num_cell (Storage d),
      num_cell (Camera d), num_cell (ScreenSize d), num_cell (Battery d),
      num_cell (map_option IntV (ReleaseYear d))]"

definition to_csv_lines :: "phone_data list \<Rightarrow> bool \<Rightarrow> cell list list" where
  \<comment> \<open>what \<open>DataFrame(data).to_csv(..., header=header, index=False)\<close> writes; the frame of
      an empty list has no columns\<close>
  "to_csv_lines data header =
     (if header then [map Txt (if data = [] then [] else columns)] else []) @ map row_of data"

definition save_data_to_csv ::
    "phone_data list \<Rightarrow> string \<Rightarrow> bool \<Rightarrow> string \<Rightarrow> filesystem \<Rightarrow> filesystem" where
  "save_data_to_csv data csv_filename append_arg timestamp fs =
     (let file_exists = path_exists fs csv_filename;
          fs1 = (if file_exists \<and> \<not> append_arg then fst (create_backup csv_filename timestamp fs) else fs);
          mode_a = (append_arg \<and> file_exists);
          header = (\<not> (append_arg \<and> file_exists));
          written = to_csv_lines data header
      in if mode_a then
           (case fs1 csv_filename of
              Some (Lines old) \<Rightarrow> fs1(csv_filename \<mapsto> Lines (old @ written))
            | Some Garbled \<Rightarrow> fs1(csv_filename \<mapsto> Garbled)
            | None \<Rightarrow> fs1(csv_filename \<mapsto> Lines written))
         else fs1(csv_filename \<mapsto> Lines written))"

datatype read_error = EmptyDataError | ParserError

definition read_csv :: "file_content \<Rightarrow> read_error + (cell list \<times> cell list list)" where
  \<comment> \<open>the first line is the header, the others are the rows\<close>
  "read_csv c =
     (case c of
        Garbled \<Rightarrow> Inl ParserError
      | Lines [] \<Rightarrow> Inl EmptyDataError
      | Lines (h # rows) \<Rightarrow> Inr (h, rows))"

fun column_index :: "cell list \<Rightarrow> cell \<Rightarrow> nat" where
  "column_index [] x = 0"
| "column_index (c # cs) x = (if c = x then 0 else Suc (column_index cs x))"

text \<open>
  What \<open>read_csv\<close> makes of a column. A cell that is blank or holds one of the markers of
  a missing value is read as missing. When every other cell of the column is a number, or
  every other cell is a boolean, the column is read as numbers or booleans, and none of its
  values is a string. Otherwise the cells are read as the strings written. What counts as a
  number is taken to be a decimal literal of \<open>float\<close> without underscores. A number cell
  in a column read as strings would be read as the string of its digits; the model leaves
  that string out.
\<close>

definition pandas_na_values :: "string list" where
  "pandas_na_values =
     [[], ''#N/A'', ''#N/A N/A'', ''#NA'', ''-1.#IND'', ''-1.#QNAN'', ''-NaN'', ''-nan'',
      ''1.#IND'', ''1.#QNAN'', ''<NA>'', ''N/A'', ''NA'', ''NULL'', ''NaN'', ''None'', ''n/a'',
      ''nan'', ''null'']"

definition pd_numeric :: "string \<Rightarrow> bool" where
  "pd_numeric t = (CHR ''_'' \<notin> set t \<and> (case py_float t of None \<Rightarrow> False | Some v \<Rightarrow> True))"

definition pd_bool :: "string \<Rightarrow> bool" where
  "pd_bool t = (t \<in> set [''True'', ''False'', ''TRUE'', ''FALSE'', ''true'', ''false''])"

fun cell_missing :: "cell \<Rightarrow> bool" where
  "cell_missing Blank = True"
| "cell_missing (Txt s) = (s \<in> set pandas_na_values)"
| "cell_missing (Nmb n) = False"

fun cell_number :: "cell \<Rightarrow> bool" where
  "cell_number (Nmb n) = True"
| "cell_number (Txt s) = pd_numeric s"
| "cell_number Blank = False"

fun cell_bool :: "cell \<Rightarrow> bool" where
  "cell_bool (Txt s) = pd_bool s"
| "cell_bool (Nmb n) = False"
| "cell_bool Blank = False"

definition read_column :: "cell list \<Rightarrow> string list" where
  \<comment> \<open>the strings among the values that \<open>read_csv\<close> gives for a column of these cells\<close>
  "read_column cells =
     (let present = filter (\<lambda>c. \<not> cell_missing c) cells
      in if list_all cell_number present \<or> list_all cell_bool present then []
         else concat (map (\<lambda>c. case c of Txt s \<Rightarrow> [s] | _ \<Rightarrow> []) present))"

definition name_cells :: "cell list \<Rightarrow> cell list list \<Rightarrow> string list" where
  \<comment> \<open>\<open>df['Name'].tolist()\<close>, the strings in it: a number, a boolean or a missing value in
      the column is equal to no name\<close>
  "name_cells h rows =
     (let i = column_index h (Txt ''Name'')
      in read_column (map (\<lambda>r. if i < length r then r ! i else Blank) rows))"

definition get_existing_phones :: "string \<Rightarrow> filesystem \<Rightarrow> string set" where
  "get_existing_phones csv_filename fs =
     (case fs csv_filename of
        Some content \<Rightarrow>
          (case read_csv content of
             Inr (h, rows) \<Rightarrow> if Txt ''Name'' \<in> set h then set (name_cells h rows) else {}
           | Inl e \<Rightarrow> {})
      | None \<Rightarrow> {})"

section \<open>Crawl loop\<close>

text \<open>
  The world outside is two oracles: \<open>fetch page k\<close> is the answer to attempt number \<open>k\<close>
  (from 0) at the page, \<open>None\<close> when the request raises and the parsed document otherwise;
  \<open>now k\<close> is the formatted clock reading at the \<open>k\<close>-th backup. The run parameters are a
  record; the retry delay is taken not negative, as \<open>time.sleep\<close> requires. The state of
  the loop holds the variables of \<open>scrape_pricebook\<close>, the file system, and the list of the
  sleeps made so far.
\<close>

record world =
  fetch :: "int \<Rightarrow> nat \<Rightarrow> soup option"
  now :: "nat \<Rightarrow> string"

record config =
  csv_filename :: string
  backup_interval :: int
  max_retries :: int
  retry_delay :: int
  start_page :: int
  end_page :: "int option"

datatype sleep = RetryWait int | PageDelay

record crawl_state =
  page :: int
  total_phones :: int
  empty_pages_count :: int
  existing_phones :: "string set"
  fs :: filesystem
  clock :: nat
  sleeps :: "sleep list"

datatype step_result = Continue crawl_state | Break crawl_state

definition max_empty_pages :: int where
  "max_empty_pages = 3"

function fetch_loop ::
    "(int \<Rightarrow> nat \<Rightarrow> soup option) \<Rightarrow> int \<Rightarrow> int \<Rightarrow> int \<Rightarrow> int \<Rightarrow> sleep list
       \<Rightarrow> soup option \<times> int \<times> int \<times> sleep list" where
  \<comment> \<open>the inner \<open>while not success and retry_count < max_retries\<close>: the response, and the
      page, the retry count and the sleeps at its end\<close>
  "fetch_loop ft maxr delay pg retry_count slept =
     (if retry_count < maxr then
        (case ft pg (nat retry_count) of
           Some response \<Rightarrow> (Some response, pg, retry_count, slept)
         | None \<Rightarrow>
             (if retry_count + 1 < maxr then
                fetch_loop ft maxr delay pg (retry_count + 1)
                  (slept @ [RetryWait (delay * (retry_count + 1))])
              else fetch_loop ft maxr delay (pg + 1) (retry_count + 1) slept))
      else (None, pg, retry_count, slept))"
  by pat_completeness auto
termination
  by (relation "measure (\<lambda>(ft, maxr, delay, pg, retry_count, slept). nat (maxr - retry_count))") auto

fun newest_loop ::
    "header list \<Rightarrow> string set \<Rightarrow> phone_data list \<Rightarrow> phone_data list \<times> string set" where
  "newest_loop [] existing page_phones = (page_phones, existing)"
| "newest_loop (h # hs) existing page_phones =
     (if contains ''RAM'' (htext h) \<and> contains ''ROM'' (htext h) then
        (case extract_product_data_newest_layout h of
           None \<Rightarrow> newest_loop hs existing page_phones
         | Some phone \<Rightarrow>
             if Name phone = [] then newest_loop hs existing page_phones
             else if Name phone \<in> existing then newest_loop hs existing page_phones
             else newest_loop hs (insert (Name phone) existing) (page_phones @ [phone]))
      else newest_loop hs existing page_phones)"

definition extract_for :: "layout \<Rightarrow> product \<Rightarrow> phone_data option" where
  \<comment> \<open>the extractor chosen inside the loop over the products\<close>
  "extract_for layout_type p =
     (if layout_type = New then extract_product_data_new_layout p
      else extract_product_data_old_layout p)"

fun product_loop ::
    "layout \<Rightarrow> product list \<Rightarrow> string set \<Rightarrow> phone_data list \<Rightarrow> phone_data list \<times> string set" where
  "product_loop layout_type [] existing page_phones = (page_phones, existing)"
| "product_loop layout_type (p # ps) existing page_phones =
     (case extract_for layout_type p of
        None \<Rightarrow> product_loop layout_type ps existing page_phones
      | Some phone \<Rightarrow>
          if Name phone = [] then product_loop layout_type ps existing page_phones
          else if Name phone \<in> existing then product_loop layout_type ps existing page_phones
          else if Price phone \<noteq> None then
            product_loop layout_type ps (insert (Name phone) existing) (page_phones @ [phone])
          else product_loop layout_type ps existing page_phones)"

definition select_products :: "layout \<Rightarrow> soup \<Rightarrow> product list" where
  "select_products layout_type sp =
     (let products =
            (if layout_type = Old then
               (let products = find_productPanel sp
                in if products = [] then find_row sp else products)
             else
               (let products = select_productPanel sp;
                    products = (if products = [] then select_productPanel_sub sp else products)
                in if products = [] then
                     (let potential_products = find_product_item sp
                      in if potential_products \<noteq> [] then potential_products else products)
                   else products))
      in if products = [] then find_container sp else products)"

definition do_backup :: "world \<Rightarrow> config \<Rightarrow> crawl_state \<Rightarrow> crawl_state" where
  "do_backup w cfg st =
     st\<lparr>fs := fst (create_backup (csv_filename cfg) (now w (clock st)) (fs st)),
        clock := Suc (clock st)\<rparr>"

definition persist_page ::
    "world \<Rightarrow> config \<Rightarrow> phone_data list \<times> string set \<Rightarrow> crawl_state \<Rightarrow> step_result" where
  \<comment> \<open>the end of the loop body, from \<open>if page_phones:\<close> on; a backup interval of zero makes
      the remainder raise, and the handler of the page takes over\<close>
  "persist_page w cfg found st0 =
     (let page_phones = fst found;
          st = st0\<lparr>existing_phones := snd found\<rparr>
      in if page_phones \<noteq> [] then
           (let append_mode = path_exists (fs st) (csv_filename cfg);
                st1 = st\<lparr>fs := save_data_to_csv page_phones (csv_filename cfg) append_mode
                                  (now w (clock st)) (fs st),
                         total_phones := total_phones st + int (length page_phones)\<rparr>
            in if backup_interval cfg = 0 then
                 (let st2 = (if path_exists (fs st1) (csv_filename cfg) then do_backup w cfg st1 else st1)
                  in Continue (st2\<lparr>page := page st2 + 1\<rparr>))
               else
                 (let st2 = (if page st1 mod backup_interval cfg = 0 then do_backup w cfg st1 else st1)
                  in Continue (st2\<lparr>sleeps := sleeps st2 @ [PageDelay], page := page st2 + 1\<rparr>)))
         else
           (let st1 = st\<lparr>empty_pages_count := empty_pages_count st + 1\<rparr>
            in if empty_pages_count st1 \<ge> max_empty_pages then Break st1
               else Continue (st1\<lparr>sleeps := sleeps st1 @ [PageDelay], page := page st1 + 1\<rparr>)))"

definition process_page :: "world \<Rightarrow> config \<Rightarrow> soup \<Rightarrow> crawl_state \<Rightarrow> step_result" where
  "process_page w cfg sp st =
     (let layout_type = detect_layout sp (page st)
      in if layout_type = Newest then
           persist_page w cfg (newest_loop (h2_headers sp) (existing_phones st) []) st
         else
           (let products = select_products layout_type sp
            in if products = [] \<or> length products = 0 then
                 (let st1 = st\<lparr>empty_pages_count := empty_pages_count st + 1\<rparr>
                  in if empty_pages_count st1 \<ge> max_empty_pages then Break st1
                     else Continue (st1\<lparr>page := page st1 + 1\<rparr>))
               else
                 (let st1 = st\<lparr>empty_pages_count := 0\<rparr>
                  in persist_page w cfg
                       (product_loop layout_type products (existing_phones st1) []) st1)))"

definition step :: "world \<Rightarrow> config \<Rightarrow> crawl_state \<Rightarrow> step_result" where
  \<comment> \<open>one pass through the body of the outer loop\<close>
  "step w cfg st =
     (case fetch_loop (fetch w) (max_retries cfg) (retry_delay cfg) (page st) 0 (sleeps st) of
        (response, pg, retry_count, slept) \<Rightarrow>
          (let st1 = st\<lparr>page := pg, sleeps := slept\<rparr>
           in case response of
                None \<Rightarrow> Continue st1
              | Some sp \<Rightarrow> process_page w cfg sp st1))"

fun crawl_loop :: "nat \<Rightarrow> world \<Rightarrow> config \<Rightarrow> crawl_state \<Rightarrow> crawl_state option" where
  \<comment> \<open>the outer loop, run for at most the given number of passes; \<open>None\<close> when that number
      does not suffice\<close>
  "crawl_loop 0 w cfg st = None"
| "crawl_loop (Suc n) w cfg st =
     (if (case end_page cfg of None \<Rightarrow> True | Some e \<Rightarrow> page st \<le> e) then
        (case step w cfg st of
           Break st' \<Rightarrow> Some st'
         | Continue st' \<Rightarrow> crawl_loop n w cfg st')
      else Some st)"

definition initial_state :: "world \<Rightarrow> config \<Rightarrow> filesystem \<Rightarrow> crawl_state" where
  "initial_state w cfg fs0 =
     (let st = \<lparr>page = start_page cfg, total_phones = 0, empty_pages_count = 0,
                existing_phones = {}, fs = fs0, clock = 0, sleeps = []\<rparr>;
          st = (if path_exists fs0 (csv_filename cfg) then do_backup w cfg st else st)
      in st\<lparr>existing_phones := get_existing_phones (csv_filename cfg) (fs st)\<rparr>)"

definition scrape_pricebook :: "nat \<Rightarrow> world \<Rightarrow> config \<Rightarrow> filesystem \<Rightarrow> (int \<times> crawl_state) option" where
  "scrape_pricebook fuel w cfg fs0 =
     map_option (\<lambda>st. (total_phones st, st)) (crawl_loop fuel w cfg (initial_state w cfg fs0))"

text \<open>
  The records a page yields, as the loop body finds them: the result of the loop that the
  detected layout selects, with the ledger it leaves. \<open>state_of\<close> reads the state out of the
  result of a pass, and \<open>stops\<close> says whether the pass ends the loop.
\<close>

definition page_scan :: "soup \<Rightarrow> int \<Rightarrow> string set \<Rightarrow> phone_data list \<times> string set" where
  "page_scan sp pg existing =
     (let layout_type = detect_layout sp pg
      in if layout_type = Newest then newest_loop (h2_headers sp) existing []
         else product_loop layout_type (select_products layout_type sp) existing [])"

fun state_of :: "step_result \<Rightarrow> crawl_state" where
  "state_of (Continue st) = st"
| "state_of (Break st) = st"

fun stops :: "step_result \<Rightarrow> bool" where
  "stops (Continue st) = False"
| "stops (Break st) = True"

text \<open>
  Both loops over a page have one shape: an element either adds a record, whose name joins
  the ledger, or adds nothing. \<open>accept_loop\<close> is that shape, and \<open>newest_accepted\<close> and
  \<open>product_accepted\<close> say what an element adds.
\<close>

fun accept_loop ::
    "('a \<Rightarrow> string set \<Rightarrow> phone_data option) \<Rightarrow> 'a list \<Rightarrow> string set \<Rightarrow> phone_data list
       \<Rightarrow> phone_data list \<times> string set" where
  "accept_loop f [] existing page_phones = (page_phones, existing)"
| "accept_loop f (x # xs) existing page_phones =
     (case f x existing of
        None \<Rightarrow> accept_loop f xs existing page_phones
      | Some phone \<Rightarrow> accept_loop f xs (insert (Name phone) existing) (page_phones @ [phone]))"

definition newest_accepted :: "header \<Rightarrow> string set \<Rightarrow> phone_data option" where
  "newest_accepted h existing =
     (if contains ''RAM'' (htext h) \<and> contains ''ROM'' (htext h) then
        (case extract_product_data_newest_layout h of
           None \<Rightarrow> None
         | Some phone \<Rightarrow> if Name phone = [] \<or> Name phone \<in> existing then None else Some phone)
      else None)"

definition product_accepted :: "layout \<Rightarrow> product \<Rightarrow> string set \<Rightarrow> phone_data option" where
  "product_accepted layout_type p existing =
     (case extract_for layout_type p of
        None \<Rightarrow> None
      | Some phone \<Rightarrow>
          if Name phone = [] \<or> Name phone \<in> existing \<or> Price phone = None then None
          else Some phone)"

definition store_after :: "file_content option \<Rightarrow> phone_data list \<Rightarrow> file_content option" where
  \<comment> \<open>the store once the records of a page are saved: nothing is written for no records\<close>
  "store_after old phones =
     (if phones = [] then old
      else Some (case old of
                   None \<Rightarrow> Lines (map Txt columns # map row_of phones)
                 | Some (Lines ls) \<Rightarrow> Lines (ls @ map row_of phones)
                 | Some Garbled \<Rightarrow> Garbled))"


section \<open>Example pages and stores\<close>

text \<open>Concrete inputs on which the theorems below are run.\<close>

definition plain_product :: product where
  "plain_product =
     \<lparr>h2_product_name = None, h2_first = None, name_like = None, year_span = None,
      text_nodes = [], seller_links = [], td_texts = [], price_class_texts = [],
      spec_items = None\<rparr>"

definition row_page :: soup where
  "row_page =
     \<lparr>h2_headers = [\<lparr>htext = ''Poco X3 RAM 6GB ROM 128GB'', next_link = None\<rparr>],
      select_productPanel_sub = [], select_productPanel = [], select_product_Panel = [],
      find_productPanel = [], find_row = [plain_product], find_product_item = [],
      find_container = []\<rparr>"


definition store_path :: string where
  "store_path = ''smartphone_data.csv''"

definition poco :: phone_data where
  "poco = \<lparr>Name = ''Poco X3'', Price = Some 3100000, RAM = Some (IntV 6), Storage = Some (IntV 128),
           Camera = None, ScreenSize = None, Battery = None, ReleaseYear = Some 2020\<rparr>"

definition old_store :: filesystem where
  "old_store = Map.empty(store_path \<mapsto> Lines [map Txt columns])"

definition bad_store :: filesystem where
  "bad_store = Map.empty(store_path \<mapsto> Lines [[Txt ''Model'', Txt ''Cost'']])"

section \<open>The price chain, in words\<close>

text \<open>
  \<open>first_present\<close> and the two candidate lists say what "every candidate goes through
  \<open>clean_price\<close>, the first result that is not absent wins" means. \<open>first_marked\<close>,
  \<open>first_nonzero\<close> and \<open>or_else\<close> say what the methods of the extractors do: the first
  candidate with the marker decides; the first result other than zero ends the scan, and the
  last result stays when there is none; a later method is asked only when the earlier ones
  gave nothing.
\<close>

definition first_present :: "string list \<Rightarrow> int option" where
  "first_present candidates =
     (case filter (\<lambda>r. r \<noteq> None) (map clean_price candidates) of [] \<Rightarrow> None | r # _ \<Rightarrow> r)"

definition candidates_old :: "product \<Rightarrow> string list" where
  "candidates_old p =
     filter (contains ''Rp'') (map py_strip (seller_links p)) @
     map py_strip (filter (contains ''Rp'') (text_nodes p)) @
     filter (contains ''Rp'') (td_texts p) @
     filter (contains ''Rp'') (price_class_texts p)"

definition candidates_new :: "product \<Rightarrow> string list" where
  "candidates_new p =
     map py_strip (filter (contains ''Rp'') (text_nodes p)) @
     filter (contains ''Rp'') (price_class_texts p)"

definition first_marked :: "string list \<Rightarrow> int option" where
  "first_marked candidates =
     (case filter (contains ''Rp'') candidates of [] \<Rightarrow> None | c # _ \<Rightarrow> clean_price c)"

definition first_nonzero :: "string list \<Rightarrow> int option" where
  "first_nonzero candidates =
     (case filter truthy (map clean_price candidates) of
        r # _ \<Rightarrow> r
      | [] \<Rightarrow> if candidates = [] then None else clean_price (last candidates))"

definition or_else :: "int option \<Rightarrow> int option \<Rightarrow> int option" where
  "or_else a b = (case a of None \<Rightarrow> b | Some x \<Rightarrow> Some x)"

definition zero_first :: product where
  "zero_first =
     \<lparr>h2_product_name = Some ''Galaxy A5'', h2_first = Some ''Galaxy A5'', name_like = None,
      year_span = None, text_nodes = [''Galaxy A5'', ''Rp 0'', ''Rp 2.500.000''],
      seller_links = [], td_texts = [], price_class_texts = [], spec_items = None\<rparr>"

definition unparsed_first_link :: product where
  \<comment> \<open>a list price in the text, then two seller links, the first without a number\<close>
  "unparsed_first_link =
     \<lparr>h2_product_name = Some ''Galaxy A5'', h2_first = Some ''Galaxy A5'', name_like = None,
      year_span = None, text_nodes = [''Galaxy A5'', ''Rp 9.000'', ''Rp -'', ''Rp 5.000''],
      seller_links = [''Rp -'', ''Rp 5.000''], td_texts = [], price_class_texts = [],
      spec_items = None\<rparr>"


text \<open>
  A page of product panels: two panels of one phone and a panel without a price. Its panels
  answer every probe for a product panel, and its headings are the names of the products.
  A page of the newest layout: six headings, two of them phones, the second without a link
  after it.
\<close>

definition nokia :: product where
  "nokia =
     \<lparr>h2_product_name = Some ''Nokia 3310'', h2_first = Some ''Nokia 3310'', name_like = None,
      year_span = None, text_nodes = [''Nokia 3310'', ''Not for sale''],
      seller_links = [], td_texts = [], price_class_texts = [], spec_items = None\<rparr>"

definition panel_page :: soup where
  "panel_page =
     \<lparr>h2_headers = [\<lparr>htext = ''Galaxy A5'', next_link = None\<rparr>,
                    \<lparr>htext = ''Galaxy A5'', next_link = None\<rparr>,
                    \<lparr>htext = ''Nokia 3310'', next_link = None\<rparr>],
      select_productPanel_sub = [zero_first, unparsed_first_link, nokia],
      select_productPanel = [zero_first, unparsed_first_link, nokia],
      select_product_Panel = [zero_first, unparsed_first_link, nokia],
      find_productPanel = [zero_first, unparsed_first_link, nokia],
      find_row = [],
      find_product_item = [zero_first, unparsed_first_link, nokia],
      find_container = [zero_first, unparsed_first_link, nokia]\<rparr>"

definition newest_page :: soup where
  "newest_page =
     \<lparr>h2_headers = [\<lparr>htext = ''Smartphone'', next_link = Some ''Home''\<rparr>,
                    \<lparr>htext = ''Poco X3 RAM 6GB ROM 128GB'',
                     next_link = Some ''Rp 3.100.000 64 MP 6.67 inch 5160 mAh 2020''\<rparr>,
                    \<lparr>htext = ''Poco M3 RAM 4GB ROM 64GB'', next_link = None\<rparr>,
                    \<lparr>htext = ''Brands'', next_link = None\<rparr>,
                    \<lparr>htext = ''Related'', next_link = None\<rparr>,
                    \<lparr>htext = ''About'', next_link = None\<rparr>],
      select_productPanel_sub = [], select_productPanel = [], select_product_Panel = [],
      find_productPanel = [], find_row = [], find_product_item = [], find_container = []\<rparr>"

definition quiet_world :: world where
  "quiet_world = \<lparr>fetch = (\<lambda>pg k. Some panel_page), now = (\<lambda>k. ''20250102_030405'')\<rparr>"

definition default_config :: config where
  "default_config =
     \<lparr>csv_filename = store_path, backup_interval = 5, max_retries = 5, retry_delay = 30,
      start_page = 1, end_page = None\<rparr>"

definition fresh_state :: crawl_state where
  "fresh_state =
     \<lparr>page = 1, total_phones = 0, empty_pages_count = 0, existing_phones = {},
      fs = Map.empty, clock = 0, sleeps = []\<rparr>"

definition offline_world :: world where
  \<comment> \<open>every request raises\<close>
  "offline_world = \<lparr>fetch = (\<lambda>pg k. None), now = (\<lambda>k. ''20250102_030405'')\<rparr>"

definition seen_state :: crawl_state where
  \<comment> \<open>two empty pages behind, and the phone of \<open>panel_page\<close> in the store and the ledger\<close>
  "seen_state =
     \<lparr>page = 4, total_phones = 1, empty_pages_count = 2, existing_phones = {''Galaxy A5''},
      fs = Map.empty(store_path \<mapsto>
             Lines [map Txt columns,
                    [Txt ''Galaxy A5'', Nmb (IntV 2500000), Blank, Blank, Blank, Blank, Blank, Blank]]),
      clock = 0, sleeps = [PageDelay]\<rparr>"



section \<open>Properties of the text operations\<close>

lemma replace_del_single: "replace_del [x] s = filter (\<lambda>c. c \<noteq> x) s"
  by (induction s) auto

lemma replace_del_absent: "hd old \<notin> set s \<Longrightarrow> replace_del old s = s"
proof (induction s)
  case Nil
  then show ?case by simp
next
  case (Cons c cs)
  then have "\<not> (old \<noteq> [] \<and> prefix old (c # cs))"
    by (cases old) auto
  with Cons show ?case by auto
qed

lemma py_strip_idem: "py_strip (py_strip s) = py_strip s"
proof -
  define t where "t = dropWhile py_isspace s"
  define u where "u = rev (dropWhile py_isspace (rev t))"
  have u_t: "u = take (length u) t"
    unfolding u_def by (metis append_eq_conv_conj rev_append rev_rev_ident takeWhile_dropWhile_id)
  have "dropWhile py_isspace u = u"
  proof (cases u)
    case Nil
    then show ?thesis by simp
  next
    case (Cons a as)
    then have "t \<noteq> []" using u_t by auto
    then have "\<not> py_isspace (hd t)" unfolding t_def by (simp add: hd_dropWhile)
    moreover have "hd t = a" using u_t Cons by (metis \<open>t \<noteq> []\<close> hd_take length_greater_0_conv list.sel(1) list.simps(3) take_eq_Nil)
    ultimately show ?thesis using Cons by simp
  qed
  moreover have "dropWhile py_isspace (rev u) = rev u"
    unfolding u_def by simp
  ultimately show ?thesis
    unfolding py_strip_def t_def[symmetric] u_def[symmetric] by simp
qed

lemma int_body_digits:
  "\<forall>c\<in>set ds. is_digit c \<Longrightarrow> int_body acc ds = Some (foldl (\<lambda>a c. 10 * a + digit_val c) acc ds)"
  by (induction acc ds rule: int_body.induct) auto

lemma int_body_chars:
  "int_body acc s = Some n \<Longrightarrow> \<forall>c\<in>set s. is_digit c \<or> c = CHR ''_''"
  by (induction acc s arbitrary: n rule: int_body.induct) (auto split: if_splits)

lemma int_digits_chars:
  "int_digits s = Some n \<Longrightarrow> \<forall>c\<in>set s. is_digit c \<or> c = CHR ''_''"
  by (auto simp: int_digits_def split: list.splits if_splits dest: int_body_chars)

lemma py_int_chars:
  "py_int s = Some n \<Longrightarrow> \<forall>c\<in>set (py_strip s). numeric_char c"
  unfolding py_int_def numeric_char_def
  by (auto split: list.splits if_splits dest!: int_digits_chars)

lemma digit_not_space: "is_digit c \<Longrightarrow> \<not> py_isspace c"
  by (auto simp: is_digit_def py_isspace_def Let_def)

lemma py_strip_unspaced:
  "s \<noteq> [] \<Longrightarrow> \<not> py_isspace (hd s) \<Longrightarrow> \<not> py_isspace (last s) \<Longrightarrow> py_strip s = s"
proof -
  assume ne: "s \<noteq> []" and h: "\<not> py_isspace (hd s)" and l: "\<not> py_isspace (last s)"
  have a: "dropWhile py_isspace s = s" using ne h by (cases s) auto
  have "hd (rev s) = last s" using ne by (simp add: hd_rev)
  then have "\<not> py_isspace (hd (rev s))" using l by simp
  moreover have "rev s \<noteq> []" using ne by simp
  ultimately have b: "dropWhile py_isspace (rev s) = rev s" by (cases "rev s") simp_all
  show ?thesis by (simp add: py_strip_def a b)
qed

lemma py_strip_digits:
  "ds \<noteq> [] \<Longrightarrow> \<forall>c\<in>set ds. is_digit c \<Longrightarrow> py_strip ds = ds"
  by (rule py_strip_unspaced) (auto dest!: digit_not_space)

lemma py_int_digits:
  assumes "ds \<noteq> []" "\<forall>c\<in>set ds. is_digit c"
  shows "py_int ds = Some (decimal ds)"
proof -
  obtain c cs where ds: "ds = c # cs" using assms(1) by (cases ds) auto
  have c: "is_digit c" and cs: "\<forall>x\<in>set cs. is_digit x" using assms(2) ds by auto
  have "c \<noteq> CHR ''-''" "c \<noteq> CHR ''+''" using c by (auto simp: is_digit_def code_def)
  moreover have "int_digits (c # cs) = Some (decimal (c # cs))"
    using c int_body_digits[OF cs] by (simp add: int_digits_def decimal_def)
  ultimately show ?thesis
    using py_strip_digits[OF assms] by (simp add: py_int_def ds)
qed

lemma clean_price_digit_groups:
  assumes "\<forall>c\<in>set ds. is_digit c \<or> c = CHR ''.''" "\<exists>c\<in>set ds. is_digit c"
  shows "clean_price (''Rp '' @ ds) = Some (decimal (filter is_digit ds))"
proof -
  have noR: "CHR ''R'' \<notin> set ds" using assms(1) by (auto simp: is_digit_def code_def)
  have r1: "replace_del ''Rp'' (''Rp '' @ ds) = CHR '' '' # ds"
    using replace_del_absent[of "''Rp''" ds] noR by simp
  have f: "filter (\<lambda>c. c \<noteq> CHR ''.'') ds = filter is_digit ds"
    using assms(1) by (intro filter_cong) (auto simp: is_digit_def code_def)
  have r2: "replace_del ''.'' (CHR '' '' # ds) = CHR '' '' # filter is_digit ds"
    by (simp add: replace_del_single f)
  have ne: "filter is_digit ds \<noteq> []" using assms(2) by (simp add: filter_empty_conv)
  have dg: "\<forall>c\<in>set (filter is_digit ds). is_digit c" by simp
  have st: "py_strip (CHR '' '' # filter is_digit ds) = filter is_digit ds"
    using py_strip_digits[OF ne dg] ne
    by (simp add: py_strip_def py_isspace_def code_def)
  have "clean_price (''Rp '' @ ds) =
      py_int (py_strip (replace_del ''.'' (replace_del ''Rp'' (''Rp '' @ ds))))"
    unfolding clean_price_def by simp
  also have "\<dots> = py_int (filter is_digit ds)"
    by (simp only: r1 r2 st)
  finally show ?thesis
    by (simp only: py_int_digits[OF ne dg])
qed

lemma underscore_no_digit: "\<not> is_digit (CHR ''_'')"
  by (simp add: is_digit_def code_def)

lemma sign_no_digit: "is_digit c \<Longrightarrow> c \<noteq> CHR ''-'' \<and> c \<noteq> CHR ''+'' \<and> c \<noteq> CHR ''_''"
  by (auto simp: is_digit_def code_def)

lemma int_body_groups:
  "int_body acc s =
     (if tail_ok s then Some (foldl (\<lambda>a c. 10 * a + digit_val c) acc (filter is_digit s)) else None)"
proof (induction acc s rule: int_body.induct)
  case (1 acc)
  then show ?case by (simp add: tail_ok_def)
next
  case (2 acc c)
  then show ?case by (auto simp: tail_ok_def underscore_no_digit)
next
  case (3 acc c d cs)
  show ?case
  proof (cases "is_digit c")
    case True
    then have "tail_ok (c # d # cs) = tail_ok (d # cs)"
      using sign_no_digit [of c] by (auto simp: tail_ok_def)
    then show ?thesis using True 3 by simp
  next
    case nd: False
    show ?thesis
    proof (cases "c = CHR ''_'' \<and> is_digit d")
      case True
      then have "tail_ok (c # d # cs) = tail_ok (d # cs)"
        using sign_no_digit [of d] by (auto simp: tail_ok_def)
      then show ?thesis using True nd 3 by simp
    next
      case False
      then have "\<not> tail_ok (c # d # cs)"
        using nd by (auto simp: tail_ok_def)
      then show ?thesis using False nd by auto
    qed
  qed
qed

lemma int_digits_groups:
  "int_digits b = (if digit_groups b then Some (decimal (filter is_digit b)) else None)"
proof (cases b)
  case Nil
  then show ?thesis by (simp add: int_digits_def digit_groups_def)
next
  case (Cons c cs)
  show ?thesis
  proof (cases "is_digit c")
    case False
    then show ?thesis using Cons by (simp add: int_digits_def digit_groups_def)
  next
    case True
    then have "digit_groups (c # cs) = tail_ok cs"
      using sign_no_digit [of c] by (auto simp: digit_groups_def tail_ok_def)
    then show ?thesis
      using True Cons by (simp add: int_digits_def int_body_groups decimal_def)
  qed
qed

lemma py_int_literal:
  "py_int t = (if int_literal (py_strip t) then Some (literal_value (py_strip t)) else None)"
proof (cases "py_strip t")
  case Nil
  then show ?thesis by (simp add: py_int_def int_literal_def)
next
  case (Cons c cs)
  have plus: "filter is_digit (CHR ''+'' # cs) = filter is_digit cs"
    by (simp add: is_digit_def code_def)
  show ?thesis
    using Cons plus
    by (auto simp: py_int_def int_literal_def literal_value_def int_digits_groups)
qed

lemma clean_price_py_int:
  "clean_price s = (if s = [] then None else py_int (replace_del ''.'' (replace_del ''Rp'' s)))"
  by (simp add: clean_price_def py_int_def py_strip_idem)

section \<open>Properties of the classifier loops and of the backup path\<close>

lemma contains_sublist: "contains sub s = sublist sub s"
  by (induction s) (auto simp: sublist_Cons_right)

lemma header_loop_iff:
  "header_loop hs = (\<exists>h\<in>set hs. contains ''RAM'' (htext h) \<and> contains ''ROM'' (htext h))"
  by (induction hs) auto

lemma indicator_loop_iff: "indicator_loop is = (\<exists>i\<in>set is. i \<noteq> [])"
  by (induction "is") auto

lemma basename_no_sep: "CHR ''/'' \<notin> set (basename p)"
  by (auto simp: basename_def dest: set_takeWhileD)

lemma basename_self: "CHR ''/'' \<notin> set n \<Longrightarrow> basename n = n"
proof -
  assume "CHR ''/'' \<notin> set n"
  then have "takeWhile (\<lambda>c. c \<noteq> CHR ''/'') (rev n) = rev n"
    by (auto simp: takeWhile_eq_all_conv)
  then show ?thesis unfolding basename_def by (simp only: rev_rev_ident)
qed

lemma basename_append_sep:
  "CHR ''/'' \<notin> set ys \<Longrightarrow> basename (xs @ CHR ''/'' # ys) = ys"
proof -
  assume a: "CHR ''/'' \<notin> set ys"
  then have "takeWhile (\<lambda>c. c \<noteq> CHR ''/'') (rev ys @ CHR ''/'' # rev xs) = rev ys"
    by (auto simp: takeWhile_tail)
  then show ?thesis by (simp add: basename_def)
qed

lemma splitext_concat:
  assumes "CHR ''/'' \<notin> set n"
  shows "fst (splitext n) @ snd (splitext n) = n"
proof -
  have b: "basename n = n" using assms by (rule basename_self)
  let ?e = "CHR ''.'' # rev (takeWhile (\<lambda>c. c \<noteq> CHR ''.'') (rev n))"
  show ?thesis
  proof (cases "CHR ''.'' \<in> set n")
    case False
    then show ?thesis by (simp add: splitext_def b Let_def)
  next
    case True
    then have "CHR ''.'' \<in> set (rev n)" by simp
    then obtain ys zs where sp: "rev n = ys @ CHR ''.'' # zs" "CHR ''.'' \<notin> set ys"
      by (meson split_list_first)
    then have tw: "takeWhile (\<lambda>c. c \<noteq> CHR ''.'') (rev n) = ys"
      by (auto simp: takeWhile_tail)
    have "n = rev (rev n)" by simp
    also have "\<dots> = rev zs @ CHR ''.'' # rev ys" by (simp only: sp(1)) simp
    finally have n: "n = rev zs @ CHR ''.'' # rev ys" .
    have e: "?e = CHR ''.'' # rev ys" using tw by simp
    have "take (length n - length ?e) n @ ?e = n"
      unfolding e by (subst (1 2 3) n) simp
    then show ?thesis
      by (auto simp: splitext_def b Let_def)
  qed
qed

lemma splitext_no_sep:
  assumes "CHR ''/'' \<notin> set n"
  shows "CHR ''/'' \<notin> set (fst (splitext n))" "CHR ''/'' \<notin> set (snd (splitext n))"
proof -
  have "set (fst (splitext n)) \<union> set (snd (splitext n)) = set n"
    using splitext_concat[OF assms] by (metis set_append)
  then show "CHR ''/'' \<notin> set (fst (splitext n))" "CHR ''/'' \<notin> set (snd (splitext n))"
    using assms by auto
qed

lemma backup_path_differs:
  assumes "CHR ''/'' \<notin> set timestamp"
  shows "backup_path_of p timestamp \<noteq> p"
proof
  let ?b = "basename p"
  let ?name = "fst (splitext ?b) @ ''_'' @ timestamp @ snd (splitext ?b)"
  assume eq: "backup_path_of p timestamp = p"
  have nb: "CHR ''/'' \<notin> set ?b" by (rule basename_no_sep)
  have "CHR ''/'' \<notin> set ?name"
    using splitext_no_sep[OF nb] assms by simp
  then have "basename (''backups'' @ CHR ''/'' # ?name) = ?name"
    by (rule basename_append_sep)
  moreover have "backup_path_of p timestamp = ''backups'' @ CHR ''/'' # ?name"
    by (simp add: backup_path_of_def Let_def)
  ultimately have "?b = ?name" using eq by simp
  then have "length ?b = length ?name" by simp
  moreover have "length ?name = length (fst (splitext ?b) @ snd (splitext ?b)) + 1 + length timestamp"
    by simp
  ultimately show False using splitext_concat[OF nb] by simp
qed

section \<open>Properties of the price loops\<close>

lemma link_loop_first_marked: "link_loop cs None = first_marked (map py_strip cs)"
  by (induction cs) (auto simp: first_marked_def Let_def)

lemma td_loop_first_marked: "td_loop cs None = first_marked cs"
  by (induction cs) (auto simp: first_marked_def)

lemma text_loop_first_nonzero:
  "text_loop cs price =
     (if cs = [] then price else first_nonzero (map py_strip cs))"
proof (induction cs arbitrary: price)
  case Nil
  then show ?case by simp
next
  case (Cons c cs)
  show ?case
  proof (cases "truthy (clean_price (py_strip c))")
    case True
    then show ?thesis by (simp add: first_nonzero_def Let_def)
  next
    case False
    then show ?thesis
      using Cons [of "clean_price (py_strip c)"]
      by (cases cs) (auto simp: first_nonzero_def Let_def split: list.splits)
  qed
qed

lemma class_loop_first_nonzero:
  "class_loop cs price =
     (if filter (contains ''Rp'') cs = [] then price else first_nonzero (filter (contains ''Rp'') cs))"
proof (induction cs arbitrary: price)
  case Nil
  then show ?case by simp
next
  case (Cons c cs)
  show ?case
  proof (cases "contains ''Rp'' c")
    case False
    then show ?thesis using Cons by simp
  next
    case marked: True
    show ?thesis
    proof (cases "truthy (clean_price c)")
      case True
      then show ?thesis using marked by (simp add: first_nonzero_def Let_def)
    next
      case False
      then show ?thesis
        using marked Cons [of "clean_price c"]
        by (cases "filter (contains ''Rp'') cs") (auto simp: first_nonzero_def Let_def split: list.splits)
    qed
  qed
qed

lemma first_nonzero_Nil: "first_nonzero [] = None"
  by (simp add: first_nonzero_def)

lemma price_old_chain:
  "price_old p =
     or_else (first_marked (map py_strip (seller_links p)))
       (or_else (first_nonzero (map py_strip (filter (contains ''Rp'') (text_nodes p))))
         (or_else (first_marked (td_texts p))
           (first_nonzero (filter (contains ''Rp'') (price_class_texts p)))))"
  by (auto simp: price_old_def or_else_def Let_def link_loop_first_marked td_loop_first_marked
      text_loop_first_nonzero class_loop_first_nonzero first_nonzero_Nil split: option.splits)

lemma price_new_chain:
  "price_new p =
     or_else (first_nonzero (map py_strip (filter (contains ''Rp'') (text_nodes p))))
       (first_nonzero (filter (contains ''Rp'') (price_class_texts p)))"
  by (auto simp: price_new_def or_else_def Let_def
      text_loop_first_nonzero class_loop_first_nonzero first_nonzero_Nil split: option.splits)

lemma extract_old_price: "extract_product_data_old_layout p = Some d \<Longrightarrow> Price d = price_old p"
  by (auto simp: extract_product_data_old_layout_def make_phone_def Let_def split: option.splits)

lemma extract_new_price: "extract_product_data_new_layout p = Some d \<Longrightarrow> Price d = price_new p"
  by (auto simp: extract_product_data_new_layout_def make_phone_def Let_def split: option.splits)

section \<open>Properties of the loops over a page\<close>

lemma newest_loop_shape: "newest_loop hs ex acc = accept_loop newest_accepted hs ex acc"
  by (induction hs arbitrary: ex acc) (simp_all add: newest_accepted_def split: option.splits)

lemma product_loop_shape: "product_loop lt ps ex acc = accept_loop (product_accepted lt) ps ex acc"
  by (induction ps arbitrary: ex acc) (simp_all add: product_accepted_def split: option.splits)



lemma accept_loop_all:
  assumes "\<And>x ex d. f x ex = Some d \<Longrightarrow> P d"
  shows "\<forall>d\<in>set acc. P d \<Longrightarrow> \<forall>d\<in>set (fst (accept_loop f xs ex acc)). P d"
proof (induction xs arbitrary: ex acc)
  case Nil
  then show ?case by simp
next
  case (Cons x xs)
  show ?case
  proof (cases "f x ex")
    case None
    have "\<forall>e\<in>set (fst (accept_loop f xs ex acc)). P e"
      using Cons.prems by (rule Cons.IH)
    then show ?thesis using None by simp
  next
    case (Some d)
    then have "P d" by (rule assms)
    then have "\<forall>e\<in>set (acc @ [d]). P e" using Cons.prems by simp
    then have "\<forall>e\<in>set (fst (accept_loop f xs (insert (Name d) ex) (acc @ [d]))). P e"
      by (rule Cons.IH)
    then show ?thesis using Some by simp
  qed
qed



lemma newest_accepted_Some:
  "newest_accepted h ex = Some d \<Longrightarrow> Name d \<noteq> [] \<and> Name d \<notin> ex"
  by (auto simp: newest_accepted_def split: if_splits option.splits)

lemma product_accepted_Some:
  "product_accepted lt p ex = Some d \<Longrightarrow> Name d \<noteq> [] \<and> Name d \<notin> ex \<and> Price d \<noteq> None"
  by (auto simp: product_accepted_def split: if_splits option.splits)








lemma newest_loop_named: "\<forall>d\<in>set (fst (newest_loop hs ex [])). Name d \<noteq> []"
  unfolding newest_loop_shape
  by (rule accept_loop_all [where P = "\<lambda>d. Name d \<noteq> []"]) (auto dest: newest_accepted_Some)

lemma product_loop_priced: "\<forall>d\<in>set (fst (product_loop lt ps ex [])). Name d \<noteq> [] \<and> Price d \<noteq> None"
  unfolding product_loop_shape
  by (rule accept_loop_all [where P = "\<lambda>d. Name d \<noteq> [] \<and> Price d \<noteq> None"])
    (auto dest: product_accepted_Some)

lemma page_scan_invariant:
  "\<forall>d\<in>set (fst (page_scan sp pg ex)).
     Name d \<noteq> [] \<and> (detect_layout sp pg \<noteq> Newest \<longrightarrow> Price d \<noteq> None)"
  using newest_loop_named [of "h2_headers sp" ex]
    product_loop_priced [of "detect_layout sp pg" "select_products (detect_layout sp pg) sp" ex]
  by (simp add: page_scan_def Let_def)


lemma process_page_scan:
  "process_page w cfg sp st =
     (if detect_layout sp (page st) = Newest then
        persist_page w cfg (page_scan sp (page st) (existing_phones st)) st
      else if select_products (detect_layout sp (page st)) sp = [] then
        (if empty_pages_count st + 1 \<ge> max_empty_pages
         then Break (st\<lparr>empty_pages_count := empty_pages_count st + 1\<rparr>)
         else Continue (st\<lparr>empty_pages_count := empty_pages_count st + 1, page := page st + 1\<rparr>))
      else persist_page w cfg (page_scan sp (page st) (existing_phones st))
             (st\<lparr>empty_pages_count := 0\<rparr>))"
  by (simp add: process_page_def page_scan_def Let_def)

lemma page_scan_no_products:
  "detect_layout sp pg \<noteq> Newest \<Longrightarrow> select_products (detect_layout sp pg) sp = [] \<Longrightarrow>
   page_scan sp pg ex = ([], ex)"
  by (simp add: page_scan_def Let_def)

section \<open>Properties of the end of the loop body\<close>

lemma persist_page_ledger:
  "existing_phones (state_of (persist_page w cfg (phones, ex) st)) = ex"
  by (simp add: persist_page_def Let_def do_backup_def)


lemma persist_page_streak:
  "empty_pages_count (state_of (persist_page w cfg (phones, ex) st)) =
     (if phones = [] then empty_pages_count st + 1 else empty_pages_count st)"
  by (simp add: persist_page_def Let_def do_backup_def)

lemma persist_page_stops:
  "stops (persist_page w cfg (phones, ex) st) = (phones = [] \<and> 3 \<le> empty_pages_count st + 1)"
  by (simp add: persist_page_def Let_def do_backup_def max_empty_pages_def)

lemma persist_page_page:
  "page (state_of (persist_page w cfg (phones, ex) st)) =
     (if phones = [] \<and> 3 \<le> empty_pages_count st + 1 then page st else page st + 1)"
  by (simp add: persist_page_def Let_def do_backup_def max_empty_pages_def)

lemma save_append_store:
  "save_data_to_csv phones p (path_exists fsys p) timestamp fsys p = store_after (fsys p) phones" if "phones \<noteq> []"
  using that
  by (auto simp: save_data_to_csv_def store_after_def path_exists_def to_csv_lines_def Let_def
      split: option.splits file_content.splits)

lemma do_backup_store:
  assumes "CHR ''/'' \<notin> set (now w (clock st))"
  shows "fs (do_backup w cfg st) (csv_filename cfg) = fs st (csv_filename cfg)"
  using backup_path_differs [OF assms, of "csv_filename cfg"]
  by (simp add: do_backup_def create_backup_def Let_def split: option.splits)

lemma persist_page_store:
  assumes "\<forall>k. CHR ''/'' \<notin> set (now w k)"
  shows "fs (state_of (persist_page w cfg (phones, ex) st)) (csv_filename cfg) =
         store_after (fs st (csv_filename cfg)) phones"
proof (cases "phones = []")
  case True
  then show ?thesis by (simp add: persist_page_def Let_def store_after_def)
next
  case False
  let ?st1 = "st\<lparr>existing_phones := ex,
      fs := save_data_to_csv phones (csv_filename cfg) (path_exists (fs st) (csv_filename cfg))
              (now w (clock st)) (fs st),
      total_phones := total_phones st + int (length phones)\<rparr>"
  have s1: "fs ?st1 (csv_filename cfg) = store_after (fs st (csv_filename cfg)) phones"
    using False by (simp add: save_append_store)
  have b: "fs (do_backup w cfg ?st1) (csv_filename cfg) = fs ?st1 (csv_filename cfg)"
    by (rule do_backup_store) (use assms in simp)
  show ?thesis
    using False s1 b by (simp add: persist_page_def Let_def)
qed




lemma row_of_Name_cell:
  "(\<lambda>r. if 0 < length r then r ! 0 else Blank) (row_of d) = Txt (Name d)"
  by (simp add: row_of_def)






lemma process_page_store:
  assumes "\<forall>k. CHR ''/'' \<notin> set (now w k)"
  shows "fs (state_of (process_page w cfg sp st)) (csv_filename cfg) =
         store_after (fs st (csv_filename cfg)) (fst (page_scan sp (page st) (existing_phones st)))"
proof -
  let ?found = "page_scan sp (page st) (existing_phones st)"
  have p: "\<And>s. fs (state_of (persist_page w cfg ?found s)) (csv_filename cfg) =
      store_after (fs s (csv_filename cfg)) (fst ?found)"
    using persist_page_store [OF assms, of cfg "fst ?found" "snd ?found"] by simp
  show ?thesis
  proof (cases "detect_layout sp (page st) \<noteq> Newest \<and> select_products (detect_layout sp (page st)) sp = []")
    case True
    then have "fst ?found = []" by (simp add: page_scan_no_products)
    then show ?thesis using True by (simp add: process_page_scan store_after_def)
  next
    case False
    then show ?thesis using p by (auto simp: process_page_scan)
  qed
qed


lemma quiet_world_timestamps: "\<forall>k. CHR ''/'' \<notin> set (now quiet_world k)"
  by (simp add: quiet_world_def)

lemma process_page_streak:
  "empty_pages_count (state_of (process_page w cfg sp st)) =
     (if detect_layout sp (page st) = Newest then
        (if fst (page_scan sp (page st) (existing_phones st)) = [] then empty_pages_count st + 1
         else empty_pages_count st)
      else if select_products (detect_layout sp (page st)) sp = [] then empty_pages_count st + 1
      else if fst (page_scan sp (page st) (existing_phones st)) = [] then 1
      else 0)"
proof -
  let ?found = "page_scan sp (page st) (existing_phones st)"
  have p: "\<And>s. empty_pages_count (state_of (persist_page w cfg ?found s)) =
      (if fst ?found = [] then empty_pages_count s + 1 else empty_pages_count s)"
    using persist_page_streak [of w cfg "fst ?found" "snd ?found"] by simp
  show ?thesis by (simp add: process_page_scan p max_empty_pages_def)
qed

lemma process_page_stops:
  "stops (process_page w cfg sp st) =
     (if detect_layout sp (page st) = Newest then
        fst (page_scan sp (page st) (existing_phones st)) = [] \<and> 3 \<le> empty_pages_count st + 1
      else select_products (detect_layout sp (page st)) sp = [] \<and> 3 \<le> empty_pages_count st + 1)"
proof -
  let ?found = "page_scan sp (page st) (existing_phones st)"
  have p: "\<And>s. stops (persist_page w cfg ?found s) =
      (fst ?found = [] \<and> 3 \<le> empty_pages_count s + 1)"
    using persist_page_stops [of w cfg "fst ?found" "snd ?found"] by simp
  show ?thesis by (simp add: process_page_scan p max_empty_pages_def)
qed

section \<open>Properties of the retry loop\<close>

declare fetch_loop.simps [simp del]

lemma fetch_loop_exhausted:
  "r < maxr \<Longrightarrow> \<forall>k. r \<le> k \<and> k < maxr \<longrightarrow> ft pg (nat k) = None \<Longrightarrow>
   fetch_loop ft maxr delay pg r slept =
     (None, pg + 1, maxr, slept @ map (\<lambda>k. RetryWait (delay * k)) [r + 1..maxr - 1])"
proof (induction "nat (maxr - r)" arbitrary: r slept)
  case 0
  then show ?case by simp
next
  case (Suc n)
  have none: "ft pg (nat r) = None" using Suc.prems by simp
  show ?case
  proof (cases "r + 1 < maxr")
    case True
    have "fetch_loop ft maxr delay pg (r + 1) (slept @ [RetryWait (delay * (r + 1))]) =
        (None, pg + 1, maxr,
         (slept @ [RetryWait (delay * (r + 1))]) @ map (\<lambda>k. RetryWait (delay * k)) [r + 1 + 1..maxr - 1])"
      using Suc.hyps(2) True Suc.prems(2) by (intro Suc.hyps(1)) auto
    moreover have "[r + 1..maxr - 1] = (r + 1) # [r + 1 + 1..maxr - 1]"
      using True by (simp add: upto_rec1)
    ultimately show ?thesis
      using True Suc.prems(1) none by (subst fetch_loop.simps) simp
  next
    case False
    then have last: "r + 1 = maxr" using Suc.prems(1) by simp
    have "fetch_loop ft maxr delay (pg + 1) (r + 1) slept = (None, pg + 1, r + 1, slept)"
      using last by (subst fetch_loop.simps) simp
    then show ?thesis
      using last Suc.prems(1) none by (subst fetch_loop.simps) simp
  qed
qed

lemma fetch_loop_answered:
  "r \<le> j \<Longrightarrow> j < maxr \<Longrightarrow> \<forall>k. r \<le> k \<and> k < j \<longrightarrow> ft pg (nat k) = None \<Longrightarrow>
   ft pg (nat j) = Some sp \<Longrightarrow>
   fetch_loop ft maxr delay pg r slept =
     (Some sp, pg, j, slept @ map (\<lambda>k. RetryWait (delay * k)) [r + 1..j])"
proof (induction "nat (j - r)" arbitrary: r slept)
  case 0
  then have "r = j" by simp
  then show ?case using 0 by (subst fetch_loop.simps) simp
next
  case (Suc n)
  then have lt: "r < j" by simp
  then have none: "ft pg (nat r) = None" using Suc.prems by simp
  have "fetch_loop ft maxr delay pg (r + 1) (slept @ [RetryWait (delay * (r + 1))]) =
      (Some sp, pg, j,
       (slept @ [RetryWait (delay * (r + 1))]) @ map (\<lambda>k. RetryWait (delay * k)) [r + 1 + 1..j])"
    using Suc.hyps(2) lt Suc.prems by (intro Suc.hyps(1)) auto
  moreover have "[r + 1..j] = (r + 1) # [r + 1 + 1..j]"
    using lt by (simp add: upto_rec1)
  ultimately show ?case
    using lt Suc.prems(2) none by (subst fetch_loop.simps) simp
qed

section \<open>Claims about the field extractor\<close>

text \<open>
  Claim C5. For every input string, \<open>clean_price\<close> removes the currency marker \<open>Rp\<close> and
  the thousand separators \<open>.\<close> and parses the rest as an integer: its result is that of
  \<open>int\<close> on the remainder, in which no separator is left. It returns a price exactly when
  the text is not empty and the stripped remainder is an integer literal, and the price is
  then the value of that literal; it returns none on the empty text and on every remainder
  that is no integer literal, so on every remainder with a character that cannot occur in
  one. A text \<open>Rp\<close>, a space, then digits grouped by dots gives the number the digits
  spell. In particular \<open>Rp 1.250.000\<close> gives 1250000, and the empty text and \<open>N/A\<close>
  give no price.
\<close>

theorem clean_price_spec:
  "clean_price [] = None \<and>
   clean_price ''Rp 1.250.000'' = Some 1250000 \<and>
   clean_price ''N/A'' = None \<and>
   clean_price s = (if s = [] then None else py_int (replace_del ''.'' (replace_del ''Rp'' s))) \<and>
   CHR ''.'' \<notin> set (replace_del ''.'' (replace_del ''Rp'' s)) \<and>
   (clean_price s = Some n \<longleftrightarrow>
      s \<noteq> [] \<and> int_literal (py_strip (replace_del ''.'' (replace_del ''Rp'' s))) \<and>
      n = literal_value (py_strip (replace_del ''.'' (replace_del ''Rp'' s)))) \<and>
   (clean_price s = None \<longleftrightarrow>
      s = [] \<or> \<not> int_literal (py_strip (replace_del ''.'' (replace_del ''Rp'' s)))) \<and>
   (clean_price s = Some n \<longrightarrow>
      s \<noteq> [] \<and>
      py_int (replace_del ''.'' (replace_del ''Rp'' s)) = Some n \<and>
      CHR ''.'' \<notin> set (py_strip (replace_del ''.'' (replace_del ''Rp'' s))) \<and>
      (\<forall>c\<in>set (py_strip (replace_del ''.'' (replace_del ''Rp'' s))). numeric_char c)) \<and>
   ((\<forall>c\<in>set ds. is_digit c \<or> c = CHR ''.'') \<and> (\<exists>c\<in>set ds. is_digit c) \<longrightarrow>
      clean_price (''Rp '' @ ds) = Some (decimal (filter is_digit ds)))"
proof -
  let ?r = "replace_del ''.'' (replace_del ''Rp'' s)"
  have ex1: "clean_price ''Rp 1.250.000'' = Some 1250000" by code_simp
  have ex2: "clean_price ''N/A'' = None" by code_simp
  have eq: "clean_price s = (if s = [] then None else py_int ?r)"
    by (rule clean_price_py_int)
  have nodot: "CHR ''.'' \<notin> set ?r" by (simp add: replace_del_single)
  have some: "clean_price s = Some n \<longleftrightarrow>
      s \<noteq> [] \<and> int_literal (py_strip ?r) \<and> n = literal_value (py_strip ?r)"
    by (auto simp: eq py_int_literal)
  have none: "clean_price s = None \<longleftrightarrow> s = [] \<or> \<not> int_literal (py_strip ?r)"
    by (simp add: eq py_int_literal)
  have gen: "s \<noteq> [] \<and> py_int ?r = Some n \<and> CHR ''.'' \<notin> set (py_strip ?r)
      \<and> (\<forall>c\<in>set (py_strip ?r). numeric_char c)" if h: "clean_price s = Some n"
  proof -
    have ne: "s \<noteq> []" using h by (auto simp: clean_price_def)
    then have p: "py_int ?r = Some n" using h eq by simp
    have chars: "\<forall>c\<in>set (py_strip ?r). numeric_char c"
      using py_int_chars[OF p] .
    have "\<not> numeric_char (CHR ''.'')" by (simp add: numeric_char_def is_digit_def code_def)
    with chars have "CHR ''.'' \<notin> set (py_strip ?r)" by blast
    with ne p chars show ?thesis by simp
  qed
  have groups: "(\<forall>c\<in>set ds. is_digit c \<or> c = CHR ''.'') \<and> (\<exists>c\<in>set ds. is_digit c) \<longrightarrow>
      clean_price (''Rp '' @ ds) = Some (decimal (filter is_digit ds))"
    using clean_price_digit_groups[of ds] by blast
  have empty: "clean_price [] = None" by (simp add: clean_price_def)
  from empty ex1 ex2 eq nodot some none gen groups show ?thesis by blast
qed

theorem clean_price_spec_witness:
  "clean_price ''Rp 75'' = Some 75 \<and> py_int '' 75'' = Some 75 \<and>
   int_literal ''75'' \<and> literal_value ''75'' = 75 \<and>
   clean_price ''1250000'' = Some 1250000 \<and> clean_price ''Rp1.250.000'' = Some 1250000 \<and>
   clean_price ''Rp 2.499.000'' = Some (decimal ''2499000'')"
proof -
  have a: "clean_price ''1250000'' = Some 1250000 \<and> clean_price ''Rp1.250.000'' = Some 1250000"
    by code_simp
  have b: "int_literal ''75'' \<and> literal_value ''75'' = 75" by code_simp
  show ?thesis
    using clean_price_spec [of "''Rp 75''" 75 "''2.499.000''"] a b
    by (simp add: clean_price_def py_int_def py_strip_def py_isspace_def code_def int_digits_def
        is_digit_def digit_val_def)
qed

lemma group_count_pat_GB: "group_count pat_GB = 1"
  by (simp add: pat_GB_def Plus_def)

text \<open>
  Claim C6, as the code has it. For every text and every pattern with exactly one capture
  group, \<open>extract_spec_value\<close> returns and does not raise: nothing when the text is empty or
  the pattern does not match; otherwise, from the captured text, a float when it holds a
  decimal point and an integer when it does not, and nothing when that parse fails. So
  \<open>6.5 inch display\<close> with \<open>([\d.]+)\s*inch\<close> gives the float 6.5 and \<open>128GB storage\<close>
  with \<open>(\d+)\s*GB\<close> gives the integer 128.
\<close>

theorem extract_spec_value_total:
  assumes "group_count pattern = 1"
  shows "(\<exists>v. extract_spec_value text pattern = Inr v) \<and>
     (text = [] \<or> re_search pattern text = None \<longrightarrow> extract_spec_value text pattern = Inr None) \<and>
     (\<forall>mt g. text \<noteq> [] \<and> re_search pattern text = Some mt \<and> group1 mt = Some g \<longrightarrow>
        extract_spec_value text pattern =
          Inr (if CHR ''.'' \<in> set g then map_option FloatV (py_float (py_strip g))
               else map_option IntV (py_int (py_strip g)))) \<and>
     extract_spec_value ''6.5 inch display'' pat_inch = Inr (Some (FloatV (Finite (13 / 2)))) \<and>
     extract_spec_value ''128GB storage'' pat_GB = Inr (Some (IntV 128))"
proof -
  have returns: "\<exists>v. extract_spec_value text pattern = Inr v"
    using assms by (simp add: extract_spec_value_def split: option.splits)
  have absent: "text = [] \<or> re_search pattern text = None \<longrightarrow>
      extract_spec_value text pattern = Inr None"
    by (auto simp: extract_spec_value_def)
  have parsed: "\<forall>mt g. text \<noteq> [] \<and> re_search pattern text = Some mt \<and> group1 mt = Some g \<longrightarrow>
      extract_spec_value text pattern =
        Inr (if CHR ''.'' \<in> set g then map_option FloatV (py_float (py_strip g))
             else map_option IntV (py_int (py_strip g)))"
    using assms by (auto simp: extract_spec_value_def)
  have inch: "extract_spec_value ''6.5 inch display'' pat_inch = Inr (Some (FloatV (Finite (13 / 2))))"
    by code_simp
  have gb: "extract_spec_value ''128GB storage'' pat_GB = Inr (Some (IntV 128))"
    by code_simp
  from returns absent parsed inch gb show ?thesis by blast
qed

theorem extract_spec_value_total_witness:
  "group_count pat_GB = 1 \<and> extract_spec_value ''RAM 8 GB'' pat_GB = Inr (Some (IntV 8))"
proof -
  have "\<exists>v. extract_spec_value ''RAM 8 GB'' pat_GB = Inr v"
    using extract_spec_value_total [OF group_count_pat_GB, of "''RAM 8 GB''"] by blast
  moreover have "extract_spec_value ''RAM 8 GB'' pat_GB = Inr (Some (IntV 8))" by code_simp
  ultimately show ?thesis using group_count_pat_GB by simp
qed

theorem extract_spec_value_raises:
  "extract_spec_value ''128GB storage'' (Seq (Plus (Cls Digit)) (Seq (Star (Cls Space)) (lit ''GB'')))
     = Inl IndexError"
  by code_simp

section \<open>Claims about the layout classifier\<close>

text \<open>
  Claim C4. \<open>detect_layout\<close> decides in this order, the first match winning: a page with
  more than five \<open>h2\<close> headings, one of which holds both \<open>RAM\<close> and \<open>ROM\<close> as
  substrings of its text, is \<open>newest\<close>; otherwise a page where one of the three new-layout
  probes finds a container is \<open>new\<close>; otherwise a page where the exact product-panel class
  or a row container is found is \<open>old\<close>; otherwise the page is \<open>new\<close> from page 202 on
  and \<open>old\<close> before.
\<close>

theorem detect_layout_order:
  "detect_layout sp page_number =
     (if 5 < length (h2_headers sp) \<and>
         (\<exists>h\<in>set (h2_headers sp). sublist ''RAM'' (htext h) \<and> sublist ''ROM'' (htext h)) then Newest
      else if select_productPanel_sub sp \<noteq> [] \<or> select_productPanel sp \<noteq> [] \<or>
              select_product_Panel sp \<noteq> [] then New
      else if find_productPanel sp \<noteq> [] \<or> find_row sp \<noteq> [] then Old
      else if 202 \<le> page_number then New else Old)"
  by (auto simp: detect_layout_def header_loop_iff indicator_loop_iff contains_sublist Let_def)

theorem detect_layout_order_witness:
  "detect_layout row_page 250 = Old \<and> detect_layout (row_page\<lparr>find_row := []\<rparr>) 250 = New \<and>
   detect_layout (row_page\<lparr>find_row := []\<rparr>) 201 = Old"
  using detect_layout_order [of row_page 250] detect_layout_order [of "row_page\<lparr>find_row := []\<rparr>" 250]
    detect_layout_order [of "row_page\<lparr>find_row := []\<rparr>" 201]
  by (simp add: row_page_def)

section \<open>Claims about persistence\<close>

text \<open>
  Claim C9. \<open>save_data_to_csv\<close> by cases. When \<open>append\<close> is false and the file exists, a
  backup of the file under the timestamped backup path is made first, then the file is
  rewritten as a header row followed by the records, and the backup still holds the old
  content afterwards. When \<open>append\<close> is true and the file exists, the records are added
  at its end with no header row, and no other file changes. When the file does not exist, it
  is created as a header row followed by the records, whatever \<open>append\<close> is. The header
  row of a frame with records is the eight column names. The timestamp holds no path
  separator, as \<open>%Y%m%d_%H%M%S\<close> gives it.
\<close>

theorem save_data_to_csv_cases:
  assumes "CHR ''/'' \<notin> set timestamp"
  shows
    "(\<not> app \<and> fsys p = Some old \<longrightarrow>
        create_backup p timestamp fsys = (fsys(backup_path_of p timestamp \<mapsto> old), Some (backup_path_of p timestamp)) \<and>
        save_data_to_csv data p app timestamp fsys =
          (fsys(backup_path_of p timestamp \<mapsto> old))(p \<mapsto> Lines (to_csv_lines data True)) \<and>
        save_data_to_csv data p app timestamp fsys (backup_path_of p timestamp) = Some old) \<and>
     (app \<and> fsys p = Some (Lines rows) \<longrightarrow>
        save_data_to_csv data p app timestamp fsys = fsys(p \<mapsto> Lines (rows @ map row_of data))) \<and>
     (app \<and> fsys p = Some Garbled \<longrightarrow> save_data_to_csv data p app timestamp fsys = fsys) \<and>
     (fsys p = None \<longrightarrow>
        save_data_to_csv data p app timestamp fsys = fsys(p \<mapsto> Lines (to_csv_lines data True))) \<and>
     (data \<noteq> [] \<longrightarrow> to_csv_lines data True = map Txt columns # map row_of data)"
proof -
  have ne: "backup_path_of p timestamp \<noteq> p"
    using assms by (rule backup_path_differs)
  have rewrite: "\<not> app \<and> fsys p = Some old \<longrightarrow>
        create_backup p timestamp fsys = (fsys(backup_path_of p timestamp \<mapsto> old), Some (backup_path_of p timestamp)) \<and>
        save_data_to_csv data p app timestamp fsys =
          (fsys(backup_path_of p timestamp \<mapsto> old))(p \<mapsto> Lines (to_csv_lines data True)) \<and>
        save_data_to_csv data p app timestamp fsys (backup_path_of p timestamp) = Some old"
    using ne by (simp add: save_data_to_csv_def create_backup_def path_exists_def Let_def)
  have appended: "app \<and> fsys p = Some (Lines rows) \<longrightarrow>
        save_data_to_csv data p app timestamp fsys = fsys(p \<mapsto> Lines (rows @ map row_of data))"
    by (simp add: save_data_to_csv_def path_exists_def Let_def to_csv_lines_def)
  have garbled: "app \<and> fsys p = Some Garbled \<longrightarrow> save_data_to_csv data p app timestamp fsys = fsys"
    by (auto simp: save_data_to_csv_def path_exists_def Let_def)
  have created: "fsys p = None \<longrightarrow>
        save_data_to_csv data p app timestamp fsys = fsys(p \<mapsto> Lines (to_csv_lines data True))"
    by (simp add: save_data_to_csv_def path_exists_def Let_def)
  have header: "data \<noteq> [] \<longrightarrow> to_csv_lines data True = map Txt columns # map row_of data"
    by (simp add: to_csv_lines_def)
  from rewrite appended garbled created header show ?thesis by blast
qed

theorem save_data_to_csv_cases_witness:
  "CHR ''/'' \<notin> set ''20250102_030405'' \<and>
   save_data_to_csv [poco] store_path False ''20250102_030405'' old_store =
     (old_store(''backups/smartphone_data_20250102_030405.csv'' \<mapsto> Lines [map Txt columns]))
       (store_path \<mapsto> Lines [map Txt columns, row_of poco]) \<and>
   save_data_to_csv [poco] store_path True ''20250102_030405'' old_store =
     old_store(store_path \<mapsto> Lines [map Txt columns, row_of poco]) \<and>
   save_data_to_csv [poco] store_path True ''20250102_030405'' Map.empty =
     Map.empty(store_path \<mapsto> Lines [map Txt columns, row_of poco])"
proof -
  have ts: "CHR ''/'' \<notin> set ''20250102_030405''" by simp
  have bp: "backup_path_of store_path ''20250102_030405'' = ''backups/smartphone_data_20250102_030405.csv''"
    by (simp add: backup_path_of_def store_path_def basename_def splitext_def Let_def)
  have os: "old_store store_path = Some (Lines [map Txt columns])"
    by (simp add: old_store_def)
  have em: "(Map.empty :: filesystem) store_path = None" by simp
  have hd: "to_csv_lines [poco] True = [map Txt columns, row_of poco]"
    by (simp add: to_csv_lines_def)
  show ?thesis
    using ts
      save_data_to_csv_cases [OF ts, of False old_store store_path "Lines [map Txt columns]" "[poco]"]
      save_data_to_csv_cases [OF ts, of True old_store store_path _ "[poco]" "[map Txt columns]"]
      save_data_to_csv_cases [OF ts, of True Map.empty store_path _ "[poco]"]
    by (simp add: bp os hd)
qed

text \<open>
  Claim C10. When the store exists and reading it raises, or it has no \<open>Name\<close> column,
  \<open>get_existing_phones\<close> returns the empty set; the crawl then starts, at its start page
  and with the store as it was, with an empty ledger.
\<close>

theorem get_existing_phones_malformed:
  assumes "store (csv_filename cfg) = Some c"
    and "(\<exists>e. read_csv c = Inl e) \<or> (\<exists>h rows. read_csv c = Inr (h, rows) \<and> Txt ''Name'' \<notin> set h)"
    and "CHR ''/'' \<notin> set (now w 0)"
  shows "get_existing_phones (csv_filename cfg) store = {} \<and>
         existing_phones (initial_state w cfg store) = {} \<and>
         page (initial_state w cfg store) = start_page cfg \<and>
         fs (initial_state w cfg store) (csv_filename cfg) = Some c"
proof -
  let ?p = "csv_filename cfg"
  let ?b = "backup_path_of ?p (now w 0)"
  have ne: "?b \<noteq> ?p" using assms(3) by (rule backup_path_differs)
  have direct: "get_existing_phones ?p store = {}"
    using assms(1,2) by (auto simp: get_existing_phones_def)
  have after: "get_existing_phones ?p (store(?b \<mapsto> c)) = {}"
    using assms(1,2) ne by (auto simp: get_existing_phones_def)
  have "initial_state w cfg store =
      \<lparr>page = start_page cfg, total_phones = 0, empty_pages_count = 0, existing_phones = {},
       fs = store(?b \<mapsto> c), clock = Suc 0, sleeps = []\<rparr>"
    using assms(1) after
    by (simp add: initial_state_def path_exists_def do_backup_def create_backup_def Let_def)
  then show ?thesis using direct ne assms(1) by simp
qed

theorem get_existing_phones_malformed_witness:
  "get_existing_phones store_path bad_store = {} \<and>
   get_existing_phones store_path (Map.empty(store_path \<mapsto> Garbled)) = {} \<and>
   get_existing_phones store_path (Map.empty(store_path \<mapsto> Lines [])) = {}"
proof -
  let ?cfg = "\<lparr>csv_filename = store_path, backup_interval = 5, max_retries = 5, retry_delay = 30,
               start_page = 1, end_page = None\<rparr>"
  let ?w = "\<lparr>fetch = (\<lambda>p k. None), now = (\<lambda>k. ''20250102_030405'')\<rparr>"
  have ts: "CHR ''/'' \<notin> set (now ?w 0)" by simp
  have a: "bad_store (csv_filename ?cfg) = Some (Lines [[Txt ''Model'', Txt ''Cost'']])"
    by (simp add: bad_store_def)
  have a': "(\<exists>e. read_csv (Lines [[Txt ''Model'', Txt ''Cost'']]) = Inl e) \<or>
      (\<exists>h rows. read_csv (Lines [[Txt ''Model'', Txt ''Cost'']]) = Inr (h, rows) \<and> Txt ''Name'' \<notin> set h)"
    by (simp add: read_csv_def)
  have b: "(Map.empty(store_path \<mapsto> Garbled)) (csv_filename ?cfg) = Some Garbled" by simp
  have b': "(\<exists>e. read_csv Garbled = Inl e) \<or>
      (\<exists>h rows. read_csv Garbled = Inr (h, rows) \<and> Txt ''Name'' \<notin> set h)"
    by (simp add: read_csv_def)
  have c: "(Map.empty(store_path \<mapsto> Lines [])) (csv_filename ?cfg) = Some (Lines [])" by simp
  have c': "(\<exists>e. read_csv (Lines []) = Inl e) \<or>
      (\<exists>h rows. read_csv (Lines []) = Inr (h, rows) \<and> Txt ''Name'' \<notin> set h)"
    by (simp add: read_csv_def)
  show ?thesis
    using get_existing_phones_malformed [where store = bad_store and cfg = ?cfg and w = ?w, OF a a' ts]
      get_existing_phones_malformed [where store = "Map.empty(store_path \<mapsto> Garbled)" and cfg = ?cfg and w = ?w, OF b b' ts]
      get_existing_phones_malformed [where store = "Map.empty(store_path \<mapsto> Lines [])" and cfg = ?cfg and w = ?w, OF c c' ts]
    by simp
qed

section \<open>Claims about the record extractors\<close>

text \<open>
  Claim C7, as the code has it. In the old and the new layout extractor the price methods
  are asked in the stated order, a later one only when the price is still absent: old, the
  seller links, the text nodes with the marker, the table cells, the elements with a price
  class; new, the text nodes with the marker, the elements with a price class. The seller
  links and the table cells clean only their first candidate with the marker, and its
  result, absent or not, is the result of the method. The text nodes and the price-class
  elements clean their candidates in order and stop at the first result that is an integer
  other than zero; when there is none, the result of the last candidate stays. The price of
  the record returned is the result of this chain.
\<close>

theorem price_priority_chain:
  "price_old p =
     or_else (first_marked (map py_strip (seller_links p)))
       (or_else (first_nonzero (map py_strip (filter (contains ''Rp'') (text_nodes p))))
         (or_else (first_marked (td_texts p))
           (first_nonzero (filter (contains ''Rp'') (price_class_texts p))))) \<and>
   price_new p =
     or_else (first_nonzero (map py_strip (filter (contains ''Rp'') (text_nodes p))))
       (first_nonzero (filter (contains ''Rp'') (price_class_texts p))) \<and>
   (\<forall>d. extract_product_data_old_layout p = Some d \<longrightarrow> Price d = price_old p) \<and>
   (\<forall>d. extract_product_data_new_layout p = Some d \<longrightarrow> Price d = price_new p)"
  using price_old_chain price_new_chain extract_old_price extract_new_price by blast

theorem price_priority_chain_witness:
  "price_old zero_first = Some 2500000 \<and> price_new zero_first = Some 2500000"
proof -
  have po: "or_else (first_marked (map py_strip (seller_links zero_first)))
       (or_else (first_nonzero (map py_strip (filter (contains ''Rp'') (text_nodes zero_first))))
         (or_else (first_marked (td_texts zero_first))
           (first_nonzero (filter (contains ''Rp'') (price_class_texts zero_first))))) = Some 2500000"
    by code_simp
  have pn: "or_else (first_nonzero (map py_strip (filter (contains ''Rp'') (text_nodes zero_first))))
       (first_nonzero (filter (contains ''Rp'') (price_class_texts zero_first))) = Some 2500000"
    by code_simp
  show ?thesis
    using price_priority_chain [of zero_first] po pn by simp
qed

text \<open>
  The claim as the specification words it fails: on \<open>unparsed_first_link\<close> the second
  seller link would be the first candidate with a cleaned result, 5000; the old-layout
  extractor stops at the first seller link, which does not parse, and takes 9000 from the
  text nodes.
\<close>

theorem first_present_counterexample:
  "map_option Price (extract_product_data_old_layout unparsed_first_link) = Some (Some 9000) \<and>
   first_present (candidates_old unparsed_first_link) = Some 5000"
  by code_simp

section \<open>Claims about the crawl loop\<close>

text \<open>
  Claim C1. Every record that a pass of the crawl loop accepts has a name that is not empty;
  on a page of the old or the new layout it has a price, so a record without a price is
  accepted on a page of the newest layout only. This holds of the heading loop and of the
  product loop each, and the records a pass saves to the store are those it accepted. The
  clock readings hold no path separator.
\<close>

theorem accepted_records_invariant:
  assumes "\<forall>k. CHR ''/'' \<notin> set (now w k)"
  shows "(\<forall>d\<in>set (fst (page_scan sp (page st) (existing_phones st))).
            Name d \<noteq> [] \<and>
            (detect_layout sp (page st) \<noteq> Newest \<longrightarrow> Price d \<noteq> None) \<and>
            (Price d = None \<longrightarrow> detect_layout sp (page st) = Newest)) \<and>
         (\<forall>d\<in>set (fst (newest_loop hs ex [])). Name d \<noteq> []) \<and>
         (\<forall>d\<in>set (fst (product_loop lt ps ex [])). Name d \<noteq> [] \<and> Price d \<noteq> None) \<and>
         fs (state_of (process_page w cfg sp st)) (csv_filename cfg) =
           store_after (fs st (csv_filename cfg))
             (fst (page_scan sp (page st) (existing_phones st)))"
  using page_scan_invariant [of sp "page st" "existing_phones st"] newest_loop_named [of hs ex]
    product_loop_priced [of lt ps ex] process_page_store [OF assms, of cfg sp st]
  by blast

theorem accepted_records_invariant_witness:
  "(\<forall>k. CHR ''/'' \<notin> set (now quiet_world k)) \<and>
   map Name (fst (page_scan panel_page 1 {})) = [''Galaxy A5''] \<and>
   map Price (fst (page_scan panel_page 1 {})) = [Some 2500000] \<and>
   detect_layout panel_page 1 = New \<and>
   map Price (fst (page_scan newest_page 300 {})) = [Some 3100000, None] \<and>
   detect_layout newest_page 300 = Newest \<and>
   fs (state_of (process_page quiet_world default_config panel_page fresh_state)) store_path =
     store_after None (fst (page_scan panel_page 1 {}))"
proof -
  have a: "map Name (fst (page_scan panel_page 1 {})) = [''Galaxy A5'']" by code_simp
  have b: "map Price (fst (page_scan panel_page 1 {})) = [Some 2500000]" by code_simp
  have c: "detect_layout panel_page 1 = New" by code_simp
  have d: "map Price (fst (page_scan newest_page 300 {})) = [Some 3100000, None]" by code_simp
  have e: "detect_layout newest_page 300 = Newest" by code_simp
  show ?thesis
    using accepted_records_invariant [OF quiet_world_timestamps, where sp = panel_page and st = fresh_state and cfg = default_config]
      quiet_world_timestamps a b c d e
    by (simp add: fresh_state_def default_config_def)
qed




text \<open>
  Claim C2, as the code has it. On a page of the old or the new layout: no product container
  adds one to the streak of empty pages; containers and no accepted record leave the streak
  at one, since finding containers resets it first; an accepted record leaves it at zero.
  On a page of the newest layout with no accepted record the streak grows by one. A pass
  stops the crawl exactly when such an increment brings the streak to three, so the streak
  is at least three whenever a pass stops, and the crawl loop ends with the state of a pass
  that stops.
\<close>

theorem empty_page_streak:
  "(detect_layout sp (page st) \<noteq> Newest \<and> select_products (detect_layout sp (page st)) sp = [] \<longrightarrow>
      empty_pages_count (state_of (process_page w cfg sp st)) = empty_pages_count st + 1 \<and>
      stops (process_page w cfg sp st) = (3 \<le> empty_pages_count st + 1)) \<and>
   (detect_layout sp (page st) \<noteq> Newest \<and> select_products (detect_layout sp (page st)) sp \<noteq> [] \<and>
    fst (page_scan sp (page st) (existing_phones st)) = [] \<longrightarrow>
      empty_pages_count (state_of (process_page w cfg sp st)) = 1 \<and>
      \<not> stops (process_page w cfg sp st)) \<and>
   (detect_layout sp (page st) \<noteq> Newest \<and>
    fst (page_scan sp (page st) (existing_phones st)) \<noteq> [] \<longrightarrow>
      empty_pages_count (state_of (process_page w cfg sp st)) = 0 \<and>
      \<not> stops (process_page w cfg sp st)) \<and>
   (detect_layout sp (page st) = Newest \<and>
    fst (page_scan sp (page st) (existing_phones st)) = [] \<longrightarrow>
      empty_pages_count (state_of (process_page w cfg sp st)) = empty_pages_count st + 1 \<and>
      stops (process_page w cfg sp st) = (3 \<le> empty_pages_count st + 1)) \<and>
   (stops (process_page w cfg sp st) \<longrightarrow>
      3 \<le> empty_pages_count (state_of (process_page w cfg sp st))) \<and>
   (stops (step w cfg st) \<and> (case end_page cfg of None \<Rightarrow> True | Some e \<Rightarrow> page st \<le> e) \<longrightarrow>
      crawl_loop (Suc n) w cfg st = Some (state_of (step w cfg st)))"
proof -
  have nonempty: "select_products (detect_layout sp (page st)) sp \<noteq> []"
    if "detect_layout sp (page st) \<noteq> Newest" "fst (page_scan sp (page st) (existing_phones st)) \<noteq> []"
    using that page_scan_no_products [of sp "page st" "existing_phones st"] by auto
  have loop: "crawl_loop (Suc n) w cfg st = Some (state_of (step w cfg st))"
    if "stops (step w cfg st)" "case end_page cfg of None \<Rightarrow> True | Some e \<Rightarrow> page st \<le> e"
    using that by (cases "step w cfg st") simp_all
  show ?thesis
    using nonempty loop by (auto simp: process_page_streak process_page_stops)
qed

theorem empty_page_streak_witness:
  "empty_pages_count (state_of (process_page quiet_world default_config panel_page fresh_state)) = 0 \<and>
   empty_pages_count (state_of (process_page quiet_world default_config
      (panel_page\<lparr>select_productPanel_sub := [], select_productPanel := [], select_product_Panel := [],
          find_productPanel := [], find_product_item := [], find_container := []\<rparr>)
      seen_state)) = 3"
proof -
  let ?bare = "panel_page\<lparr>select_productPanel_sub := [], select_productPanel := [],
      select_product_Panel := [], find_productPanel := [], find_product_item := [],
      find_container := []\<rparr>"
  have a: "detect_layout panel_page (page fresh_state) \<noteq> Newest \<and>
      fst (page_scan panel_page (page fresh_state) (existing_phones fresh_state)) \<noteq> []"
    by code_simp
  have b: "detect_layout ?bare (page seen_state) \<noteq> Newest \<and>
      select_products (detect_layout ?bare (page seen_state)) ?bare = []"
    by code_simp
  have c: "empty_pages_count seen_state = 2" by (simp add: seen_state_def)
  show ?thesis
    using empty_page_streak [of panel_page fresh_state quiet_world default_config]
      empty_page_streak [of ?bare seen_state quiet_world default_config] a b c
    by simp
qed

text \<open>
  The claim as the specification words it fails: \<open>panel_page\<close> has product panels, its
  priced phone is in the ledger of \<open>seen_state\<close>, and two empty pages came before. The
  page yields no accepted record, yet the streak is one after the pass, not three, and the
  crawl goes on.
\<close>

theorem streak_reset_counterexample:
  "detect_layout panel_page (page seen_state) = New \<and>
   select_products New panel_page \<noteq> [] \<and>
   fst (page_scan panel_page (page seen_state) (existing_phones seen_state)) = [] \<and>
   empty_pages_count seen_state = 2 \<and>
   empty_pages_count (state_of (process_page quiet_world default_config panel_page seen_state)) = 1 \<and>
   \<not> stops (process_page quiet_world default_config panel_page seen_state)"
  by code_simp

text \<open>
  Claim C8. With at least one attempt allowed: when every attempt at a page raises, the pass
  sleeps \<open>retry_delay\<close> times the attempt number after each failed attempt but the last,
  makes \<open>max_retries\<close> attempts in all, and then goes on with the next page index: the
  pass continues the loop and does not stop the run. When attempt number \<open>j\<close> is the first
  to answer, the page is processed after the sleeps of the \<open>j\<close> failed attempts.
\<close>

theorem fetch_retry_policy:
  assumes "1 \<le> max_retries cfg"
  shows
    "((\<forall>k. 0 \<le> k \<and> k < max_retries cfg \<longrightarrow> fetch w (page st) (nat k) = None) \<longrightarrow>
        step w cfg st =
          Continue (st\<lparr>page := page st + 1,
                       sleeps := sleeps st @
                         map (\<lambda>k. RetryWait (retry_delay cfg * k)) [1..max_retries cfg - 1]\<rparr>) \<and>
        (\<forall>n. (case end_page cfg of None \<Rightarrow> True | Some e \<Rightarrow> page st \<le> e) \<longrightarrow>
           crawl_loop (Suc n) w cfg st =
             crawl_loop n w cfg
               (st\<lparr>page := page st + 1,
                   sleeps := sleeps st @
                     map (\<lambda>k. RetryWait (retry_delay cfg * k)) [1..max_retries cfg - 1]\<rparr>))) \<and>
     (\<forall>j sp. 0 \<le> j \<and> j < max_retries cfg \<and>
        (\<forall>k. 0 \<le> k \<and> k < j \<longrightarrow> fetch w (page st) (nat k) = None) \<and>
        fetch w (page st) (nat j) = Some sp \<longrightarrow>
        step w cfg st =
          process_page w cfg sp
            (st\<lparr>sleeps := sleeps st @ map (\<lambda>k. RetryWait (retry_delay cfg * k)) [1..j]\<rparr>))"
proof -
  let ?waits = "\<lambda>j. map (\<lambda>k. RetryWait (retry_delay cfg * k)) [1..j]"
  have lt: "0 < max_retries cfg" using assms by simp
  have exhausted: "step w cfg st =
      Continue (st\<lparr>page := page st + 1, sleeps := sleeps st @ ?waits (max_retries cfg - 1)\<rparr>)"
    if "\<forall>k. 0 \<le> k \<and> k < max_retries cfg \<longrightarrow> fetch w (page st) (nat k) = None"
    using lt that
      fetch_loop_exhausted [where ft = "fetch w" and pg = "page st" and r = 0
        and maxr = "max_retries cfg" and delay = "retry_delay cfg" and slept = "sleeps st"]
    by (simp add: step_def)
  have answered: "step w cfg st = process_page w cfg sp (st\<lparr>sleeps := sleeps st @ ?waits j\<rparr>)"
    if "0 \<le> j" "j < max_retries cfg" "\<forall>k. 0 \<le> k \<and> k < j \<longrightarrow> fetch w (page st) (nat k) = None"
      "fetch w (page st) (nat j) = Some sp" for j sp
    using that
      fetch_loop_answered [where ft = "fetch w" and pg = "page st" and r = 0 and j = j
        and maxr = "max_retries cfg" and delay = "retry_delay cfg" and slept = "sleeps st"
        and sp = sp]
    by (simp add: step_def)
  show ?thesis
    using exhausted answered by (auto split: option.splits)
qed

theorem fetch_retry_policy_witness:
  "1 \<le> max_retries default_config \<and>
   step offline_world default_config fresh_state =
     Continue (fresh_state\<lparr>page := 2,
                 sleeps := [RetryWait 30, RetryWait 60, RetryWait 90, RetryWait 120]\<rparr>) \<and>
   step quiet_world default_config fresh_state =
     process_page quiet_world default_config panel_page fresh_state"
proof -
  have m: "1 \<le> max_retries default_config" by (simp add: default_config_def)
  have off: "\<forall>k. 0 \<le> k \<and> k < max_retries default_config \<longrightarrow>
      fetch offline_world (page fresh_state) (nat k) = None"
    by (simp add: offline_world_def)
  have ws: "[1..max_retries default_config - 1] = [1, 2, 3, 4]"
    by (simp add: default_config_def upto_rec1)
  have on: "0 \<le> (0::int) \<and> 0 < max_retries default_config \<and>
      (\<forall>k. 0 \<le> k \<and> k < 0 \<longrightarrow> fetch quiet_world (page fresh_state) (nat k) = None) \<and>
      fetch quiet_world (page fresh_state) (nat 0) = Some panel_page"
    by (simp add: default_config_def quiet_world_def)
  have a: "step offline_world default_config fresh_state =
     Continue (fresh_state\<lparr>page := 2,
                 sleeps := [RetryWait 30, RetryWait 60, RetryWait 90, RetryWait 120]\<rparr>)"
    using fetch_retry_policy [OF m, of offline_world fresh_state] off ws
    by (simp add: default_config_def fresh_state_def)
  have "\<forall>j sp. 0 \<le> j \<and> j < max_retries default_config \<and>
        (\<forall>k. 0 \<le> k \<and> k < j \<longrightarrow> fetch quiet_world (page fresh_state) (nat k) = None) \<and>
        fetch quiet_world (page fresh_state) (nat j) = Some sp \<longrightarrow>
        step quiet_world default_config fresh_state =
          process_page quiet_world default_config sp
            (fresh_state\<lparr>sleeps := sleeps fresh_state @
               map (\<lambda>k. RetryWait (retry_delay default_config * k)) [1..j]\<rparr>)"
    using fetch_retry_policy [OF m, of quiet_world fresh_state] by blast
  then have "step quiet_world default_config fresh_state =
      process_page quiet_world default_config panel_page
        (fresh_state\<lparr>sleeps := sleeps fresh_state @
           map (\<lambda>k. RetryWait (retry_delay default_config * k)) [1..0]\<rparr>)"
    using on by blast
  then have b: "step quiet_world default_config fresh_state =
     process_page quiet_world default_config panel_page fresh_state"
    by (simp add: fresh_state_def)
  from m a b show ?thesis by simp
qed

end
